theory Spec2Isabelle
  imports Main "HOL-Library.AList" "HOL-Library.Sublist" "HOL-Library.Word"
begin

section \<open>The logging package of ncobase/common (log/log.go)\<close>

text \<open>
  The package keeps its state in package-level variables (the shared logrus logger, the
  version string, the current log file, the base path, the two index clients and the index
  name). The model threads one record of these variables through every function and adds
  the part of the outside world the functions act on: the history of successful
  open and close calls, what has been written to each sink, the calls made to the remote
  indexers and the number of rotation goroutines that have been started.

  What the operating system and the remote services answer is not decided by the program;
  each function takes it from an \<open>env\<close> record.
\<close>

subsection \<open>Strings and time formatting (Go's strings and time packages)\<close>

definition HasSuffix :: "string \<Rightarrow> string \<Rightarrow> bool" where
  "HasSuffix s suf =
     (length suf \<le> length s \<and> drop (length s - length suf) s = suf)"

definition TrimSuffix :: "string \<Rightarrow> string \<Rightarrow> string" where
  "TrimSuffix s suf =
     (if HasSuffix s suf then take (length s - length suf) s else s)"

definition digit :: "nat \<Rightarrow> char" where
  "digit n = ''0123456789'' ! (n mod 10)"

fun decimal :: "nat \<Rightarrow> string" where
  "decimal n = (if n < 10 then [digit n] else decimal (n div 10) @ [digit n])"

declare decimal.simps [simp del]

text \<open>\<open>appendInt\<close> of the time package: decimal, padded with zeros to the width.\<close>

definition appendInt :: "nat \<Rightarrow> nat \<Rightarrow> string" where
  "appendInt x width =
     replicate (width - length (decimal x)) (CHR ''0'') @ decimal x"

record time =
  year :: nat
  month :: nat
  day :: nat
  hour :: nat
  minute :: nat
  second :: nat
  zone_offset :: int  \<comment> \<open>minutes east of UTC\<close>

text \<open>The zero \<open>time.Time\<close>: January 1 of year 1, 00:00:00 UTC.\<close>

definition zero_time :: time where
  "zero_time = \<lparr>year = 1, month = 1, day = 1, hour = 0, minute = 0, second = 0,
                 zone_offset = 0\<rparr>"

text \<open>\<open>t.Format("2006-01-02")\<close>\<close>

definition Format_2006_01_02 :: "time \<Rightarrow> string" where
  "Format_2006_01_02 t =
     appendInt (year t) 4 @ ''-'' @ appendInt (month t) 2 @ ''-'' @ appendInt (day t) 2"

text \<open>\<open>t.Format(time.RFC3339)\<close>, layout \<open>2006-01-02T15:04:05Z07:00\<close>\<close>

definition Format_zone :: "int \<Rightarrow> string" where
  "Format_zone z =
     (if z = 0 then ''Z''
      else (if z < 0 then ''-'' else ''+'') @
           appendInt (nat \<bar>z\<bar> div 60) 2 @ '':'' @ appendInt (nat \<bar>z\<bar> mod 60) 2)"

definition Format_RFC3339 :: "time \<Rightarrow> string" where
  "Format_RFC3339 t =
     Format_2006_01_02 t @ ''T'' @ appendInt (hour t) 2 @ '':'' @
     appendInt (minute t) 2 @ '':'' @ appendInt (second t) 2 @ Format_zone (zone_offset t)"

text \<open>
  The spec's words for the date part of a file name, \<open>YYYY-MM-DD\<close>: four digits of the
  year, two of the month, two of the day, separated by dashes.
\<close>

definition spec_YYYY_MM_DD :: "nat \<Rightarrow> nat \<Rightarrow> nat \<Rightarrow> string" where
  "spec_YYYY_MM_DD y m d =
     [digit (y div 1000), digit (y div 100), digit (y div 10), digit y, CHR ''-'',
      digit (m div 10), digit m, CHR ''-'', digit (d div 10), digit d]"

subsection \<open>Key constants\<close>

definition TraceIDKey :: string where "TraceIDKey = ''trace_id''"
definition VersionKey :: string where "VersionKey = ''version''"

subsection \<open>logrus values\<close>

datatype Level =
  PanicLevel | FatalLevel | ErrorLevel | WarnLevel | InfoLevel | DebugLevel | TraceLevel

fun level_num :: "Level \<Rightarrow> nat" where
  "level_num PanicLevel = 0"
| "level_num FatalLevel = 1"
| "level_num ErrorLevel = 2"
| "level_num WarnLevel = 3"
| "level_num InfoLevel = 4"
| "level_num DebugLevel = 5"
| "level_num TraceLevel = 6"

definition AllLevels :: "Level list" where
  "AllLevels =
     [PanicLevel, FatalLevel, ErrorLevel, WarnLevel, InfoLevel, DebugLevel, TraceLevel]"

text \<open>
  \<open>logrus.Fields\<close>, a map from field name to a value of any type. A value is kept by what
  the package and its libraries tell apart: a string, a function or a pointer to one (which
  \<open>WithFields\<close> refuses), another value that \<open>json.Marshal\<close> cannot encode (a channel,
  say), or any other value. The map is an association list with distinct keys:
  \<open>AList.update\<close> is the assignment \<open>m[k] = v\<close>, \<open>map_of\<close> is the lookup, and the order of
  the list has no meaning.
\<close>

datatype field_value = Str string | Func nat | Unencodable nat | Other nat

type_synonym Fields = "(string \<times> field_value) list"

fun is_func :: "field_value \<Rightarrow> bool" where
  "is_func (Func f) = True"
| "is_func v = False"

fun json_unsupported :: "field_value \<Rightarrow> bool" where
  "json_unsupported (Func f) = True"
| "json_unsupported (Unencodable u) = True"
| "json_unsupported v = False"

record Entry =
  Data :: Fields
  Time :: time
  Lvl :: Level
  Message :: string

datatype formatter = JSONFormatter | TextFormatter

text \<open>
  A hook is a pointer to one of the two empty structs of the package, or a hook of the
  caller's: its dynamic type and its address. The interface comparison
  \<open>existingHook == hook\<close> holds when the dynamic types and the addresses agree, which
  is equality of this datatype.
\<close>

datatype hook_type = MeiliSearchHook | ElasticSearchHook | CallerHook

datatype hook = Ptr hook_type nat

fun dyn_type :: "hook \<Rightarrow> hook_type" where
  "dyn_type (Ptr t a) = t"

text \<open>
  \<open>MeiliSearchHook\<close> and \<open>ElasticSearchHook\<close> are \<open>struct{}\<close>. The composite literals
  \<open>&MeiliSearchHook{}\<close> and \<open>&ElasticSearchHook{}\<close> escape (they are converted to an
  interface and stored by \<open>AddHook\<close>), and the Go runtime allocates every zero-size
  object at the address of \<open>runtime.zerobase\<close>. (The language itself leaves open
  whether pointers to distinct zero-size variables are equal.)
\<close>

definition zerobase :: nat where "zerobase = 0"

datatype sink = Stdout | Stderr | FileOut nat | WriterOut nat

record logger =
  Out :: sink
  Hooks :: "Level \<Rightarrow> hook list"
  Formatter :: formatter
  LoggerLevel :: nat

subsection \<open>The outside world\<close>

datatype open_flag = O_APPEND | O_WRONLY | O_CREATE

datatype fs_event =
  EvOpen nat string "open_flag list" "32 word"   \<comment> \<open>handle, path, flags, permission\<close>
| EvClose nat

datatype error =
  EMkdirAll | EClose | EFileAlreadyClosed | EOpenFile | EMarshal | ERemote string
| EWrapped string error

datatype target = ToStdout | ToStderr | ToFile string | ToWriter nat

datatype out_item = Line formatter Entry | Diag string

datatype remote_call =
  MeiliIndexDocuments nat string Fields      \<comment> \<open>client, index, marshalled field map\<close>
| ESIndexDocument nat string string Fields   \<comment> \<open>client, index, document id, field map\<close>

record env =
  now :: time
  mkdir_fails :: bool
  close_fails :: bool
  open_fails :: bool
  meili_new :: "nat option"
  es_new :: "nat option \<times> error option"
  meili_fails :: bool
  es_fails :: bool

text \<open>The fields of \<open>config.Logger\<close> that \<open>Init\<close> reads.\<close>

record Meilisearch_config =
  Host :: string
  APIKey :: string

record Elasticsearch_config =
  Addresses :: "string list"
  Username :: string
  Password :: string

record Logger_config =
  Level :: int
  Format :: string
  Output :: string
  OutputFile :: string
  Meilisearch :: Meilisearch_config
  Elasticsearch :: Elasticsearch_config
  IndexName :: string

record state =
  standardLogger :: logger
  version :: string
  logFile :: "nat option"
  logPath :: string
  meiliClient :: "nat option"
  esClient :: "nat option"
  indexName :: string
  fs_events :: "fs_event list"
  written :: "(target \<times> out_item) list"
  remote :: "remote_call list"
  rotation_tasks :: nat
  exited :: bool

subsection \<open>Files (Go's os package)\<close>

text \<open>
  The handles that are open after a history of open and close calls (oldest first), and
  the path a handle was opened on.
\<close>

fun apply_event :: "nat list \<Rightarrow> fs_event \<Rightarrow> nat list" where
  "apply_event hs (EvOpen h p fl pm) = hs @ [h]"
| "apply_event hs (EvClose h) = removeAll h hs"

definition open_handles :: "fs_event list \<Rightarrow> nat list" where
  "open_handles es = foldl apply_event [] es"

fun handle_path :: "fs_event list \<Rightarrow> nat \<Rightarrow> string option" where
  "handle_path [] h = None"
| "handle_path (EvOpen h' p fl pm # es) h = (if h' = h then Some p else handle_path es h)"
| "handle_path (EvClose h' # es) h = handle_path es h"

definition is_open :: "nat \<Rightarrow> state \<Rightarrow> bool" where
  "is_open h st = (h \<in> set (open_handles (fs_events st)))"

text \<open>\<open>os.OpenFile\<close>: a new handle on success (numbered by the length of the history).\<close>

definition os_OpenFile ::
  "string \<Rightarrow> open_flag list \<Rightarrow> 32 word \<Rightarrow> env \<Rightarrow> state \<Rightarrow> (error + nat) \<times> state" where
  "os_OpenFile name flags perm e st =
     (if open_fails e then (Inl EOpenFile, st)
      else let h = length (fs_events st)
           in (Inr h, st\<lparr>fs_events := fs_events st @ [EvOpen h name flags perm]\<rparr>))"

text \<open>
  \<open>(*os.File).Close\<close>: an error when the file is already closed; otherwise the descriptor is
  released, also when the underlying close reports an error.
\<close>

definition File_Close :: "nat \<Rightarrow> env \<Rightarrow> state \<Rightarrow> error option \<times> state" where
  "File_Close h e st =
     (if \<not> is_open h st then (Some EFileAlreadyClosed, st)
      else (if close_fails e then Some EClose else None,
            st\<lparr>fs_events := fs_events st @ [EvClose h]\<rparr>))"

definition File_Write :: "nat \<Rightarrow> out_item \<Rightarrow> state \<Rightarrow> error option \<times> state" where
  "File_Write h item st =
     (if is_open h st then
        (case handle_path (fs_events st) h of
           Some p \<Rightarrow> (None, st\<lparr>written := written st @ [(ToFile p, item)]\<rparr>)
         | None \<Rightarrow> (Some EFileAlreadyClosed, st))
      else (Some EFileAlreadyClosed, st))"

text \<open>The lines a file holds.\<close>

definition file_lines :: "string \<Rightarrow> state \<Rightarrow> out_item list" where
  "file_lines p st = map snd (filter (\<lambda>w. fst w = ToFile p) (written st))"

subsection \<open>The logrus logger\<close>

text \<open>
  \<open>StandardLogger()\<close> creates the logger on first use (\<open>logrus.New()\<close>, then the JSON
  formatter) and every access goes through it, so the state always holds the logger; a
  process starts in \<open>start_state\<close>.
\<close>

definition new_logger :: logger where
  "new_logger = \<lparr>Out = Stderr, Hooks = (\<lambda>l. []), Formatter = JSONFormatter,
                  LoggerLevel = level_num InfoLevel\<rparr>"

definition start_state :: state where
  "start_state = \<lparr>standardLogger = new_logger, version = [], logFile = None,
     logPath = [], meiliClient = None, esClient = None, indexName = [],
     fs_events = [], written = [], remote = [], rotation_tasks = 0, exited = False\<rparr>"

definition Logger_SetOutput :: "sink \<Rightarrow> state \<Rightarrow> state" where
  "Logger_SetOutput out st = st\<lparr>standardLogger := (standardLogger st)\<lparr>Out := out\<rparr>\<rparr>"

definition Logger_SetFormatter :: "formatter \<Rightarrow> state \<Rightarrow> state" where
  "Logger_SetFormatter f st = st\<lparr>standardLogger := (standardLogger st)\<lparr>Formatter := f\<rparr>\<rparr>"

definition Logger_SetLevel :: "nat \<Rightarrow> state \<Rightarrow> state" where
  "Logger_SetLevel l st = st\<lparr>standardLogger := (standardLogger st)\<lparr>LoggerLevel := l\<rparr>\<rparr>"

text \<open>\<open>Logger.AddHook\<close>: the hook is appended at each of its levels.\<close>

definition Logger_AddHook :: "hook \<Rightarrow> Level list \<Rightarrow> state \<Rightarrow> state" where
  "Logger_AddHook hk levels st =
     st\<lparr>standardLogger := (standardLogger st)
          \<lparr>Hooks := (\<lambda>l. if l \<in> set levels then Hooks (standardLogger st) l @ [hk]
                         else Hooks (standardLogger st) l)\<rparr>\<rparr>"

definition IsLevelEnabled :: "Level \<Rightarrow> state \<Rightarrow> bool" where
  "IsLevelEnabled l st = (level_num l \<le> LoggerLevel (standardLogger st))"

definition SetVersion :: "string \<Rightarrow> state \<Rightarrow> state" where
  "SetVersion v st = st\<lparr>version := v\<rparr>"

definition SetOutput :: "sink \<Rightarrow> state \<Rightarrow> state" where
  "SetOutput out st = Logger_SetOutput out st"

subsection \<open>Rotation\<close>

text \<open>The permission argument \<open>0666\<close> (octal).\<close>

definition mode_0666 :: "32 word" where
  "mode_0666 = 6 * 64 + 6 * 8 + 6"

definition logFilePath :: "string \<Rightarrow> time \<Rightarrow> string" where
  "logFilePath base t = TrimSuffix base ''.log'' @ ''.'' @ Format_2006_01_02 t @ ''.log''"

definition rotateLog :: "env \<Rightarrow> state \<Rightarrow> error option \<times> state" where
  "rotateLog e st =
     (case (case logFile st of None \<Rightarrow> (None, st) | Some h \<Rightarrow> File_Close h e st) of
        (Some err, st1) \<Rightarrow> (Some err, st1)
      | (None, st1) \<Rightarrow>
          (case os_OpenFile (logFilePath (logPath st1) (now e))
                  [O_APPEND, O_WRONLY, O_CREATE] mode_0666 e st1 of
             (Inl err, st2) \<Rightarrow> (Some err, st2)
           | (Inr f, st2) \<Rightarrow> (None, Logger_SetOutput (FileOut f) (st2\<lparr>logFile := Some f\<rparr>))))"

text \<open>\<open>os.MkdirAll\<close> only succeeds or fails here; directories are not part of the model.\<close>

definition setupLogFile :: "env \<Rightarrow> state \<Rightarrow> error option \<times> state" where
  "setupLogFile e st = (if mkdir_fails e then (Some EMkdirAll, st) else rotateLog e st)"

subsection \<open>Hooks\<close>

text \<open>
  \<open>json.Marshal\<close> of a field map: an error when a value has no JSON encoding; otherwise the
  JSON text, kept as the map it encodes.
\<close>

definition json_Marshal :: "Fields \<Rightarrow> error + Fields" where
  "json_Marshal d =
     (if list_ex (\<lambda>kv. json_unsupported (snd kv)) d then Inl EMarshal else Inr d)"

text \<open>\<open>Fire\<close> of the two hooks. A caller's hook acts outside this package.\<close>

definition MeiliSearchHook_Fire :: "Entry \<Rightarrow> env \<Rightarrow> state \<Rightarrow> error option \<times> state" where
  "MeiliSearchHook_Fire entry e st =
     (case meiliClient st of
        None \<Rightarrow> (None, st)
      | Some cl \<Rightarrow>
          (case json_Marshal (Data entry) of
             Inl err \<Rightarrow> (Some err, st)
           | Inr jsonData \<Rightarrow>
               (if meili_fails e then Some (ERemote ''meilisearch'') else None,
                st\<lparr>remote := remote st @
                   [MeiliIndexDocuments cl (indexName st) jsonData]\<rparr>)))"

definition ElasticSearchHook_Fire :: "Entry \<Rightarrow> env \<Rightarrow> state \<Rightarrow> error option \<times> state" where
  "ElasticSearchHook_Fire entry e st =
     (case esClient st of
        None \<Rightarrow> (None, st)
      | Some cl \<Rightarrow>
          (if es_fails e then Some (ERemote ''elasticsearch'') else None,
           st\<lparr>remote := remote st @
              [ESIndexDocument cl (indexName st) (Format_RFC3339 (Time entry)) (Data entry)]\<rparr>))"

fun hook_Fire :: "hook \<Rightarrow> Entry \<Rightarrow> env \<Rightarrow> state \<Rightarrow> error option \<times> state" where
  "hook_Fire (Ptr MeiliSearchHook a) entry e st = MeiliSearchHook_Fire entry e st"
| "hook_Fire (Ptr ElasticSearchHook a) entry e st = ElasticSearchHook_Fire entry e st"
| "hook_Fire (Ptr CallerHook a) entry e st = (None, st)"

text \<open>\<open>hookExists\<close>: the loop over the levels of \<open>Hooks\<close> and over the hooks of each.\<close>

definition hookExists :: "hook \<Rightarrow> state \<Rightarrow> bool" where
  "hookExists hk st =
     list_ex (\<lambda>l. list_ex (\<lambda>existingHook. existingHook = hk) (Hooks (standardLogger st) l))
       AllLevels"

text \<open>The hooks of one type that fire at a level.\<close>

definition hooks_of_type :: "hook_type \<Rightarrow> Level \<Rightarrow> state \<Rightarrow> hook list" where
  "hooks_of_type t l st = filter (\<lambda>hk. dyn_type hk = t) (Hooks (standardLogger st) l)"

definition AddMeiliSearchHook :: "state \<Rightarrow> state" where
  "AddMeiliSearchHook st =
     (if meiliClient st \<noteq> None then
        (let hk = Ptr MeiliSearchHook zerobase
         in if \<not> hookExists hk st then Logger_AddHook hk AllLevels st else st)
      else st)"

definition AddElasticSearchHook :: "state \<Rightarrow> state" where
  "AddElasticSearchHook st =
     (if esClient st \<noteq> None then
        (let hk = Ptr ElasticSearchHook zerobase
         in if \<not> hookExists hk st then Logger_AddHook hk AllLevels st else st)
      else st)"

text \<open>The package's \<open>AddHook\<close>, for a hook that fires at the given levels.\<close>

definition AddHook :: "hook \<Rightarrow> Level list \<Rightarrow> state \<Rightarrow> state" where
  "AddHook hk levels st = Logger_AddHook hk levels st"

subsection \<open>Emission (logrus \<open>Entry\<close>)\<close>

datatype outcome = Returned | Panicked | Exited

text \<open>\<open>LevelHooks.Fire\<close> stops at the first hook that returns an error.\<close>

fun LevelHooks_Fire :: "hook list \<Rightarrow> Entry \<Rightarrow> env \<Rightarrow> state \<Rightarrow> error option \<times> state" where
  "LevelHooks_Fire [] entry e st = (None, st)"
| "LevelHooks_Fire (hk # hks) entry e st =
     (case hook_Fire hk entry e st of
        (Some err, st') \<Rightarrow> (Some err, st')
      | (None, st') \<Rightarrow> LevelHooks_Fire hks entry e st')"

definition Entry_fireHooks :: "Entry \<Rightarrow> env \<Rightarrow> state \<Rightarrow> state" where
  "Entry_fireHooks entry e st =
     (case LevelHooks_Fire (Hooks (standardLogger st) (Lvl entry)) entry e st of
        (Some err, st') \<Rightarrow> st'\<lparr>written := written st' @ [(ToStderr, Diag ''Failed to fire hook'')]\<rparr>
      | (None, st') \<Rightarrow> st')"

definition Out_Write :: "out_item \<Rightarrow> state \<Rightarrow> error option \<times> state" where
  "Out_Write item st =
     (case Out (standardLogger st) of
        Stdout \<Rightarrow> (None, st\<lparr>written := written st @ [(ToStdout, item)]\<rparr>)
      | Stderr \<Rightarrow> (None, st\<lparr>written := written st @ [(ToStderr, item)]\<rparr>)
      | FileOut h \<Rightarrow> File_Write h item st
      | WriterOut w \<Rightarrow> (None, st\<lparr>written := written st @ [(ToWriter w, item)]\<rparr>))"

definition Entry_write :: "Entry \<Rightarrow> state \<Rightarrow> state" where
  "Entry_write entry st =
     (case Out_Write (Line (Formatter (standardLogger st)) entry) st of
        (Some err, st') \<Rightarrow>
          st'\<lparr>written := written st' @ [(ToStderr, Diag ''Failed to write to log'')]\<rparr>
      | (None, st') \<Rightarrow> st')"

text \<open>
  \<open>Entry.log\<close>: the entry is duplicated and completed, the hooks fire, the entry is
  written, and at panic level the call panics.
\<close>

definition complete_entry :: "Entry \<Rightarrow> Level \<Rightarrow> string \<Rightarrow> env \<Rightarrow> Entry" where
  "complete_entry entry level msg e =
     entry\<lparr>Time := (if Time entry = zero_time then now e else Time entry),
           Lvl := level, Message := msg\<rparr>"

definition Entry_log :: "Entry \<Rightarrow> Level \<Rightarrow> string \<Rightarrow> env \<Rightarrow> state \<Rightarrow> outcome \<times> state" where
  "Entry_log entry level msg e st =
     (let newEntry = complete_entry entry level msg e;
          st1 = Entry_fireHooks newEntry e st;
          st2 = Entry_write newEntry st1
      in (if level_num level \<le> level_num PanicLevel then Panicked else Returned, st2))"

definition Entry_Log :: "Entry \<Rightarrow> Level \<Rightarrow> string \<Rightarrow> env \<Rightarrow> state \<Rightarrow> outcome \<times> state" where
  "Entry_Log entry level msg e st =
     (if IsLevelEnabled level st then Entry_log entry level msg e st else (Returned, st))"

definition newEntry :: Entry where
  "newEntry = \<lparr>Data = [], Time = zero_time, Lvl = PanicLevel, Message = []\<rparr>"

text \<open>
  \<open>Entry.WithFields\<close> copies the data of the entry and stores each field of the argument in
  the copy, except a field whose value is a function or a pointer to one. (logrus also keeps
  a note about the fields it refused, which only its formatters print; the note is not part
  of the model.) \<open>Logger.WithFields\<close> does this on a new entry.
\<close>

definition Entry_WithFields :: "Entry \<Rightarrow> Fields \<Rightarrow> Entry" where
  "Entry_WithFields entry flds =
     entry\<lparr>Data := foldl (\<lambda>data kv. if is_func (snd kv) then data
                                     else AList.update (fst kv) (snd kv) data)
                          (Data entry) flds\<rparr>"

definition Logger_WithFields :: "Fields \<Rightarrow> Entry" where
  "Logger_WithFields flds = Entry_WithFields newEntry flds"

text \<open>\<open>StandardLogger().Errorf\<close>, as the rotation loop calls it.\<close>

definition Logger_Errorf :: "string \<Rightarrow> env \<Rightarrow> state \<Rightarrow> outcome \<times> state" where
  "Logger_Errorf msg e st =
     (if IsLevelEnabled ErrorLevel st then Entry_Log newEntry ErrorLevel msg e st
      else (Returned, st))"

text \<open>
  The twelve emission functions of the package. Each is
  \<open>entryFromContext(ctx).X(...)\<close>; the message is the text that \<open>fmt.Sprintf\<close> or
  \<open>fmt.Sprint\<close> made of the arguments. \<open>Fatal\<close> and \<open>Fatalf\<close> exit the process after
  logging.
\<close>

datatype emit_op =
  OpInfof | OpDebugf | OpWarnf | OpErrorf | OpFatalf | OpPanicf
| OpInfo | OpDebug | OpWarn | OpError | OpFatal | OpPanic

fun op_level :: "emit_op \<Rightarrow> Level" where
  "op_level OpInfof = InfoLevel"
| "op_level OpDebugf = DebugLevel"
| "op_level OpWarnf = WarnLevel"
| "op_level OpErrorf = ErrorLevel"
| "op_level OpFatalf = FatalLevel"
| "op_level OpPanicf = PanicLevel"
| "op_level OpInfo = InfoLevel"
| "op_level OpDebug = DebugLevel"
| "op_level OpWarn = WarnLevel"
| "op_level OpError = ErrorLevel"
| "op_level OpFatal = FatalLevel"
| "op_level OpPanic = PanicLevel"

definition Entry_emit :: "Entry \<Rightarrow> emit_op \<Rightarrow> string \<Rightarrow> env \<Rightarrow> state \<Rightarrow> outcome \<times> state" where
  "Entry_emit entry opn msg e st =
     (case Entry_Log entry (op_level opn) msg e st of
        (Panicked, st') \<Rightarrow> (Panicked, st')
      | (r, st') \<Rightarrow>
          (if op_level opn = FatalLevel then (Exited, st'\<lparr>exited := True\<rparr>) else (r, st')))"

text \<open>
  The trace functions \<open>getTraceID\<close> and \<open>EnsureTraceID\<close> are in another file of the
  package; they are parameters here.
\<close>

record 'ctx tracer =
  getTraceID :: "'ctx \<Rightarrow> string"
  EnsureTraceID :: "'ctx \<Rightarrow> 'ctx \<times> string"

definition entryFromContext :: "'ctx tracer \<Rightarrow> 'ctx \<Rightarrow> state \<Rightarrow> Entry" where
  "entryFromContext tr ctx st =
     (let flds = [];
          traceID = getTraceID tr ctx;
          traceID = (if traceID = [] then snd (EnsureTraceID tr ctx) else traceID);
          flds = AList.update TraceIDKey (Str traceID) flds;
          flds = (if version st \<noteq> [] then AList.update VersionKey (Str (version st)) flds
                  else flds)
      in Logger_WithFields flds)"

definition EntryWithFields :: "'ctx tracer \<Rightarrow> 'ctx \<Rightarrow> Fields \<Rightarrow> state \<Rightarrow> Entry" where
  "EntryWithFields tr ctx flds st = Entry_WithFields (entryFromContext tr ctx st) flds"

definition emit ::
  "'ctx tracer \<Rightarrow> emit_op \<Rightarrow> 'ctx \<Rightarrow> string \<Rightarrow> env \<Rightarrow> state \<Rightarrow> outcome \<times> state" where
  "emit tr opn ctx msg e st = Entry_emit (entryFromContext tr ctx st) opn msg e st"

subsection \<open>Init, the teardown closure and the rotation loop\<close>

text \<open>The conversion \<open>logrus.Level(c.Level)\<close> to an unsigned 32-bit level.\<close>

definition logrus_Level :: "int \<Rightarrow> nat" where
  "logrus_Level i = unat (word_of_int i :: 32 word)"

text \<open>The closure that \<open>Init\<close> returns; it reads the package variables when it runs.\<close>

datatype teardown_fn = Cleanup

text \<open>
  The output switch of \<open>Init\<close>. \<open>go periodicLogRotation()\<close> starts one more rotation
  goroutine.
\<close>

definition Init_output :: "Logger_config \<Rightarrow> env \<Rightarrow> state \<Rightarrow> error option \<times> state" where
  "Init_output c e st =
     (if Output c = ''stdout'' then (None, Logger_SetOutput Stdout st)
      else if Output c = ''stderr'' then (None, Logger_SetOutput Stderr st)
      else if Output c = ''file'' then
        (let st1 = st\<lparr>logPath := OutputFile c\<rparr>
         in if logPath st1 \<noteq> [] then
              (case setupLogFile e st1 of
                 (Some err, st2) \<Rightarrow> (Some err, st2)
               | (None, st2) \<Rightarrow> (None, st2\<lparr>rotation_tasks := Suc (rotation_tasks st2)\<rparr>))
            else (None, st1))
      else (None, st))"

definition Init_meili :: "Logger_config \<Rightarrow> env \<Rightarrow> state \<Rightarrow> state" where
  "Init_meili c e st =
     (if Host (Meilisearch c) \<noteq> [] then
        AddMeiliSearchHook (st\<lparr>meiliClient := meili_new e, indexName := IndexName c\<rparr>)
      else st)"

definition Init_elastic :: "Logger_config \<Rightarrow> env \<Rightarrow> state \<Rightarrow> error option \<times> state" where
  "Init_elastic c e st =
     (if Addresses (Elasticsearch c) \<noteq> [] then
        (let st1 = st\<lparr>esClient := fst (es_new e)\<rparr>
         in case snd (es_new e) of
              Some err \<Rightarrow>
                (Some (EWrapped ''error initializing Elasticsearch client'' err), st1)
            | None \<Rightarrow> (None, AddElasticSearchHook (st1\<lparr>indexName := IndexName c\<rparr>)))
      else (None, st))"

text \<open>The level and the format switch at the start of \<open>Init\<close>.\<close>

definition Init_settings :: "Logger_config \<Rightarrow> state \<Rightarrow> state" where
  "Init_settings c st =
     Logger_SetFormatter (if Format c = ''json'' then JSONFormatter else TextFormatter)
       (Logger_SetLevel (logrus_Level (Level c)) st)"

definition Init :: "Logger_config \<Rightarrow> env \<Rightarrow> state \<Rightarrow> (error + teardown_fn) \<times> state" where
  "Init c e st =
     (case Init_output c e (Init_settings c st) of
        (Some err, st3) \<Rightarrow> (Inl err, st3)
      | (None, st3) \<Rightarrow>
          (case Init_elastic c e (Init_meili c e st3) of
             (Some err, st4) \<Rightarrow> (Inl err, st4)
           | (None, st4) \<Rightarrow> (Inr Cleanup, st4)))"

definition teardown :: "env \<Rightarrow> state \<Rightarrow> state" where
  "teardown e st = (case logFile st of None \<Rightarrow> st | Some h \<Rightarrow> snd (File_Close h e st))"

fun error_text :: "error \<Rightarrow> string" where
  "error_text EMkdirAll = ''mkdir failed''"
| "error_text EClose = ''close failed''"
| "error_text EFileAlreadyClosed = ''file already closed''"
| "error_text EOpenFile = ''open failed''"
| "error_text EMarshal = ''json: unsupported type''"
| "error_text (ERemote s) = s"
| "error_text (EWrapped s err) = s @ '': '' @ error_text err"

text \<open>
  One iteration of the loop of \<open>periodicLogRotation\<close>. The loop ranges over the ticker's
  channel, which is never closed: a rotation goroutine, once started, runs one iteration
  at every tick for the rest of the process.
\<close>

definition rotation_tick :: "env \<Rightarrow> state \<Rightarrow> state" where
  "rotation_tick e st =
     (case rotateLog e st of
        (Some err, st') \<Rightarrow> snd (Logger_Errorf (''Error rotating log: '' @ error_text err) e st')
      | (None, st') \<Rightarrow> st')"

subsection \<open>Runs of a process\<close>

text \<open>
  What a process does to the package, one call or one tick at a time. A tick runs the
  loop body when a rotation goroutine exists; nothing runs after the process has exited.
\<close>

datatype 'ctx action =
  DoInit Logger_config env
| DoTick env
| DoTeardown env
| DoEmit emit_op 'ctx string env
| DoSetVersion string

fun step :: "'ctx tracer \<Rightarrow> 'ctx action \<Rightarrow> state \<Rightarrow> state" where
  "step tr (DoInit c e) st = snd (Init c e st)"
| "step tr (DoTick e) st = (if 0 < rotation_tasks st then rotation_tick e st else st)"
| "step tr (DoTeardown e) st = teardown e st"
| "step tr (DoEmit opn ctx msg e) st = snd (emit tr opn ctx msg e st)"
| "step tr (DoSetVersion v) st = SetVersion v st"

fun run :: "'ctx tracer \<Rightarrow> 'ctx action list \<Rightarrow> state \<Rightarrow> state" where
  "run tr [] st = st"
| "run tr (s # ss) st = (if exited st then st else run tr ss (step tr s st))"

text \<open>
  At most one handle is open at every instant of a history: after each of its prefixes.
\<close>

definition at_most_one_open :: "fs_event list \<Rightarrow> bool" where
  "at_most_one_open es = list_all (\<lambda>p. length (open_handles p) \<le> 1) (prefixes es)"

text \<open>
  Two relations used in the proofs: the invariant of the file handles (every open handle
  is the current \<open>logFile\<close>), and the part of the state that emitting an entry leaves
  alone (everything but what has been written, what has been sent and the exit flag).
\<close>

definition handle_invariant :: "state \<Rightarrow> bool" where
  "handle_invariant st =
     (at_most_one_open (fs_events st) \<and>
      set (open_handles (fs_events st)) \<subseteq> set_option (logFile st))"

definition only_io :: "state \<Rightarrow> state \<Rightarrow> bool" where
  "only_io st st' =
     (standardLogger st' = standardLogger st \<and> version st' = version st \<and>
      logFile st' = logFile st \<and> logPath st' = logPath st \<and>
      meiliClient st' = meiliClient st \<and> esClient st' = esClient st \<and>
      indexName st' = indexName st \<and> fs_events st' = fs_events st \<and>
      rotation_tasks st' = rotation_tasks st)"

subsection \<open>Example inputs\<close>

definition day1 :: time where
  "day1 = \<lparr>year = 2024, month = 3, day = 9, hour = 7, minute = 5, second = 0,
            zone_offset = 0\<rparr>"

definition day2 :: time where
  "day2 = \<lparr>year = 2024, month = 3, day = 10, hour = 7, minute = 5, second = 0,
            zone_offset = 0\<rparr>"

text \<open>An environment in which every call succeeds.\<close>

definition env_ok :: "time \<Rightarrow> env" where
  "env_ok t = \<lparr>now = t, mkdir_fails = False, close_fails = False, open_fails = False,
     meili_new = Some 1, es_new = (Some 2, None), meili_fails = False, es_fails = False\<rparr>"

definition no_meili :: Meilisearch_config where
  "no_meili = \<lparr>Host = [], APIKey = []\<rparr>"

definition no_elastic :: Elasticsearch_config where
  "no_elastic = \<lparr>Addresses = [], Username = [], Password = []\<rparr>"

definition config_file :: Logger_config where
  "config_file = \<lparr>Level = 4, Format = ''json'', Output = ''file'',
     OutputFile = ''/tmp/app.log'', Meilisearch = no_meili, Elasticsearch = no_elastic,
     IndexName = ''logs''\<rparr>"

text \<open>A tracer whose context is the trace id itself (empty when there is none).\<close>

definition tracer0 :: "string tracer" where
  "tracer0 = \<lparr>getTraceID = (\<lambda>ctx. ctx), EnsureTraceID = (\<lambda>ctx. (''fresh'', ''fresh''))\<rparr>"

definition after_init :: state where
  "after_init = snd (Init config_file (env_ok day1) start_state)"

definition versioned :: state where
  "versioned = SetVersion ''1.4.2'' start_state"

definition hello_entry :: Entry where
  "hello_entry = \<lparr>Data = [(TraceIDKey, Str ''t1''), (VersionKey, Str ''1.4.2'')],
     Time = day1,
     Lvl = InfoLevel, Message = ''hello''\<rparr>"

definition with_clients :: state where
  "with_clients = start_state\<lparr>meiliClient := Some 1, esClient := Some 2,
     indexName := ''logs''\<rparr>"

definition env_open_fails :: env where
  "env_open_fails = (env_ok day2)\<lparr>open_fails := True\<rparr>"

definition before_entry :: Entry where
  "before_entry = \<lparr>Data = [(TraceIDKey, Str ''t1'')], Time = day1, Lvl = InfoLevel,
     Message = ''before''\<rparr>"

definition one_line :: state where
  "one_line = snd (emit tracer0 OpInfo ''t1'' ''before'' (env_ok day1) after_init)"

definition failed_rotation :: state where
  "failed_rotation = rotation_tick env_open_fails one_line"

definition elastic_addr :: Elasticsearch_config where
  "elastic_addr = \<lparr>Addresses = [''http://es:9200''], Username = ''u'', Password = ''p''\<rparr>"

definition env_es_fails :: env where
  "env_es_fails = (env_ok day1)\<lparr>es_new := (None, Some (ERemote ''no such host''))\<rparr>"

definition config_file_es :: Logger_config where
  "config_file_es = config_file\<lparr>Elasticsearch := elastic_addr\<rparr>"

definition config_no_path_es :: Logger_config where
  "config_no_path_es = config_file\<lparr>OutputFile := [], Elasticsearch := elastic_addr\<rparr>"

definition config_no_path :: Logger_config where
  "config_no_path = config_file\<lparr>OutputFile := []\<rparr>"

definition failed_init :: state where
  "failed_init = snd (Init config_file_es env_es_fails start_state)"

definition torn_down :: state where
  "torn_down = teardown (env_ok day1) after_init"

definition hooked :: state where
  "hooked = AddElasticSearchHook (AddMeiliSearchHook with_clients)"

definition user_fields :: Fields where
  "user_fields = [(''user'', Str ''u7''), (''callback'', Func 0), (''count'', Other 3)]"

definition user_data :: Fields where
  "user_data = [(TraceIDKey, Str ''t1''), (''user'', Str ''u7''), (''count'', Other 3)]"

text \<open>
  A call that carries a field map to an index: as the document for Meilisearch, or as the
  document for Elasticsearch with the time, in RFC 3339 form, as the document id.
\<close>

definition forwarded :: "string \<Rightarrow> time \<Rightarrow> Fields \<Rightarrow> remote_call \<Rightarrow> bool" where
  "forwarded idx t d c =
     ((\<exists>cl. c = MeiliIndexDocuments cl idx d) \<or>
      (\<exists>cl. c = ESIndexDocument cl idx (Format_RFC3339 t) d))"

definition meili_config :: Meilisearch_config where
  "meili_config = \<lparr>Host = ''http://meili:7700'', APIKey = ''key''\<rparr>"

definition config_file_meili :: Logger_config where
  "config_file_meili = config_file\<lparr>Meilisearch := meili_config\<rparr>"

definition after_init_meili :: state where
  "after_init_meili = snd (Init config_file_meili (env_ok day1) start_state)"

definition chan_entry :: Entry where
  "chan_entry = hello_entry\<lparr>Data := [(TraceIDKey, Str ''t1''), (''done'', Unencodable 0)]\<rparr>"

section \<open>Properties\<close>

subsection \<open>Evaluation\<close>

lemmas eval_defs = Init_def Init_settings_def Init_output_def Init_meili_def Init_elastic_def
    Logger_SetLevel_def Logger_SetFormatter_def Logger_SetOutput_def
    setupLogFile_def rotateLog_def os_OpenFile_def File_Close_def is_open_def open_handles_def
    Let_def teardown_def rotation_tick_def Logger_Errorf_def Entry_Log_def Entry_log_def
    IsLevelEnabled_def Entry_fireHooks_def Entry_write_def Out_Write_def File_Write_def
    complete_entry_def newEntry_def emit_def Entry_emit_def entryFromContext_def
    Logger_WithFields_def Entry_WithFields_def AddMeiliSearchHook_def AddElasticSearchHook_def
    hookExists_def Logger_AddHook_def AllLevels_def MeiliSearchHook_Fire_def
    ElasticSearchHook_Fire_def SetVersion_def json_Marshal_def TraceIDKey_def VersionKey_def

lemma path1: "logFilePath ''/tmp/app.log'' day1 = ''/tmp/app.2024-03-09.log''"
  by code_simp

lemma path2: "logFilePath ''/tmp/app.log'' day2 = ''/tmp/app.2024-03-10.log''"
  by code_simp

lemma after_init_eq:
  "after_init = start_state\<lparr>standardLogger := new_logger\<lparr>Out := FileOut 0\<rparr>,
      logFile := Some 0, logPath := ''/tmp/app.log'',
      fs_events := [EvOpen 0 ''/tmp/app.2024-03-09.log'' [O_APPEND, O_WRONLY, O_CREATE] mode_0666],
      rotation_tasks := 1\<rparr>"
  by (simp add: after_init_def eval_defs config_file_def no_meili_def no_elastic_def env_ok_def
      start_state_def new_logger_def logrus_Level_def path1)

lemma rotate_day2:
  "rotateLog (env_ok day2) after_init =
   (None, after_init\<lparr>standardLogger := new_logger\<lparr>Out := FileOut 2\<rparr>, logFile := Some 2,
      fs_events := [EvOpen 0 ''/tmp/app.2024-03-09.log'' [O_APPEND, O_WRONLY, O_CREATE] mode_0666,
         EvClose 0,
         EvOpen 2 ''/tmp/app.2024-03-10.log'' [O_APPEND, O_WRONLY, O_CREATE] mode_0666]\<rparr>)"
  by (simp add: after_init_eq eval_defs env_ok_def start_state_def new_logger_def path2)

subsection \<open>What emitting an entry leaves alone\<close>

lemma only_io_refl: "only_io st st"
  by (simp add: only_io_def)

lemma only_io_trans: "only_io a b \<Longrightarrow> only_io b c \<Longrightarrow> only_io a c"
  by (simp add: only_io_def)

lemma hook_Fire_io: "only_io st (snd (hook_Fire hk entry e st))"
  by (cases "(hk, entry, e, st)" rule: hook_Fire.cases)
     (auto simp: only_io_def MeiliSearchHook_Fire_def ElasticSearchHook_Fire_def
       split: option.splits sum.splits)

lemma LevelHooks_Fire_io: "only_io st (snd (LevelHooks_Fire hks entry e st))"
proof (induction hks arbitrary: st)
  case Nil
  show ?case by (simp add: only_io_refl)
next
  case (Cons hk hks)
  obtain r st1 where f: "hook_Fire hk entry e st = (r, st1)" by force
  have a: "only_io st st1" using hook_Fire_io[of st hk entry e] f by simp
  show ?case
  proof (cases r)
    case None
    with f a Cons[of st1] show ?thesis by (auto intro: only_io_trans)
  next
    case (Some err)
    with f a show ?thesis by simp
  qed
qed

lemma Entry_fireHooks_io: "only_io st (Entry_fireHooks entry e st)"
proof -
  obtain r st1
    where f: "LevelHooks_Fire (Hooks (standardLogger st) (Lvl entry)) entry e st = (r, st1)"
    by force
  have "only_io st st1"
    using LevelHooks_Fire_io[of st "Hooks (standardLogger st) (Lvl entry)" entry e] f
    by simp
  with f show ?thesis
    by (cases r) (auto simp: Entry_fireHooks_def only_io_def)
qed

lemma Out_Write_io: "only_io st (snd (Out_Write item st))"
  by (auto simp: Out_Write_def File_Write_def only_io_def split: sink.splits option.splits)

lemma Entry_write_io: "only_io st (Entry_write entry st)"
proof -
  obtain r st1 where f: "Out_Write (Line (Formatter (standardLogger st)) entry) st = (r, st1)"
    by force
  have "only_io st st1"
    using Out_Write_io[of st "Line (Formatter (standardLogger st)) entry"] f by simp
  with f show ?thesis
    by (cases r) (auto simp: Entry_write_def only_io_def)
qed

lemma Entry_log_io: "only_io st (snd (Entry_log entry level msg e st))"
  by (auto simp: Entry_log_def Let_def intro: only_io_trans Entry_fireHooks_io Entry_write_io)

lemma Entry_Log_io: "only_io st (snd (Entry_Log entry level msg e st))"
  by (simp add: Entry_Log_def Entry_log_io only_io_refl)

lemma Logger_Errorf_io: "only_io st (snd (Logger_Errorf msg e st))"
  by (simp add: Logger_Errorf_def Entry_Log_io only_io_refl)

lemma Entry_emit_io: "only_io st (snd (Entry_emit entry opn msg e st))"
proof -
  obtain r st1 where f: "Entry_Log entry (op_level opn) msg e st = (r, st1)" by force
  have "only_io st st1" using Entry_Log_io[of st entry "op_level opn" msg e] f by simp
  with f show ?thesis
    by (cases r) (auto simp: Entry_emit_def only_io_def)
qed

lemma emit_io: "only_io st (snd (emit tr opn ctx msg e st))"
  by (simp add: emit_def Entry_emit_io)

subsection \<open>The file handles\<close>

lemma open_handles_snoc: "open_handles (es @ [ev]) = apply_event (open_handles es) ev"
  by (simp add: open_handles_def)

lemma at_most_one_open_Nil: "at_most_one_open []"
  by (simp add: at_most_one_open_def open_handles_def)

lemma at_most_one_open_snoc:
  "at_most_one_open (es @ [ev]) =
     (at_most_one_open es \<and> length (apply_event (open_handles es) ev) \<le> 1)"
  by (simp add: at_most_one_open_def open_handles_snoc)

lemma removeAll_only: "set xs \<subseteq> {h} \<Longrightarrow> removeAll h xs = []"
  by (induction xs) auto

lemma File_Close_invariant:
  "handle_invariant st \<Longrightarrow> logFile st = Some h \<Longrightarrow> File_Close h e st = (r, st') \<Longrightarrow>
     handle_invariant st' \<and> logFile st' = Some h \<and>
     (r = None \<longrightarrow> open_handles (fs_events st') = [])"
  by (auto simp: File_Close_def handle_invariant_def at_most_one_open_snoc open_handles_snoc
      removeAll_only is_open_def split: if_splits)

lemma rotateLog_invariant: "handle_invariant st \<Longrightarrow> handle_invariant (snd (rotateLog e st))"
proof (cases "logFile st")
  case None
  assume "handle_invariant st"
  with None show ?thesis
    by (auto simp: rotateLog_def os_OpenFile_def handle_invariant_def Let_def
        Logger_SetOutput_def at_most_one_open_snoc open_handles_snoc)
next
  case (Some h)
  assume i: "handle_invariant st"
  obtain r st1 where c: "File_Close h e st = (r, st1)" by force
  from File_Close_invariant[OF i Some c]
  have 1: "handle_invariant st1" "logFile st1 = Some h"
    "r = None \<longrightarrow> open_handles (fs_events st1) = []"
    by auto
  show ?thesis
  proof (cases r)
    case None
    with 1 Some c show ?thesis
      by (auto simp: rotateLog_def os_OpenFile_def handle_invariant_def Let_def
          Logger_SetOutput_def at_most_one_open_snoc open_handles_snoc)
  next
    case (Some err)
    with 1 \<open>logFile st = Some h\<close> c show ?thesis
      by (simp add: rotateLog_def)
  qed
qed

lemma only_io_invariant: "only_io st st' \<Longrightarrow> handle_invariant st \<Longrightarrow> handle_invariant st'"
  by (simp add: only_io_def handle_invariant_def)

lemma rotation_tick_invariant: "handle_invariant st \<Longrightarrow> handle_invariant (rotation_tick e st)"
proof -
  assume i: "handle_invariant st"
  obtain r st1 where f: "rotateLog e st = (r, st1)" by force
  have 1: "handle_invariant st1" using rotateLog_invariant[OF i, of e] f by simp
  show ?thesis
  proof (cases r)
    case None
    with f 1 show ?thesis by (simp add: rotation_tick_def)
  next
    case (Some err)
    with f 1 show ?thesis
      by (simp add: rotation_tick_def only_io_invariant[OF Logger_Errorf_io])
  qed
qed

lemma teardown_invariant: "handle_invariant st \<Longrightarrow> handle_invariant (teardown e st)"
proof (cases "logFile st")
  case None
  assume "handle_invariant st"
  with None show ?thesis by (simp add: teardown_def)
next
  case (Some h)
  assume i: "handle_invariant st"
  obtain r st1 where c: "File_Close h e st = (r, st1)" by force
  from File_Close_invariant[OF i Some c] Some c show ?thesis by (simp add: teardown_def)
qed

lemma AddMeiliSearchHook_files:
  "fs_events (AddMeiliSearchHook st) = fs_events st \<and>
   logFile (AddMeiliSearchHook st) = logFile st"
  by (simp add: AddMeiliSearchHook_def Logger_AddHook_def Let_def)

lemma AddElasticSearchHook_files:
  "fs_events (AddElasticSearchHook st) = fs_events st \<and>
   logFile (AddElasticSearchHook st) = logFile st"
  by (simp add: AddElasticSearchHook_def Logger_AddHook_def Let_def)

lemma Init_meili_files:
  "fs_events (Init_meili c e st) = fs_events st \<and> logFile (Init_meili c e st) = logFile st"
  by (simp add: Init_meili_def AddMeiliSearchHook_files)

lemma Init_elastic_files:
  "fs_events (snd (Init_elastic c e st)) = fs_events st \<and>
   logFile (snd (Init_elastic c e st)) = logFile st"
  by (simp add: Init_elastic_def AddElasticSearchHook_files Let_def split: option.splits)

lemma Init_output_invariant:
  "handle_invariant st \<Longrightarrow> handle_invariant (snd (Init_output c e st))"
proof -
  assume i: "handle_invariant st"
  have 1: "handle_invariant (st\<lparr>logPath := OutputFile c\<rparr>)"
    using i by (simp add: handle_invariant_def)
  have 2: "handle_invariant (snd (rotateLog e (st\<lparr>logPath := OutputFile c\<rparr>)))"
    using rotateLog_invariant[OF 1] .
  have 3: "handle_invariant (Logger_SetOutput out st)" for out
    using i by (simp add: handle_invariant_def Logger_SetOutput_def)
  show ?thesis using i 1 2 3
    by (auto simp: Init_output_def setupLogFile_def Let_def handle_invariant_def
        split: prod.splits option.splits)
qed

lemma Init_settings_files:
  "fs_events (Init_settings c st) = fs_events st \<and> logFile (Init_settings c st) = logFile st \<and>
   logPath (Init_settings c st) = logPath st"
  by (simp add: Init_settings_def Logger_SetFormatter_def Logger_SetLevel_def)

lemma Init_invariant: "handle_invariant st \<Longrightarrow> handle_invariant (snd (Init c e st))"
proof -
  assume i: "handle_invariant st"
  have "handle_invariant (Init_settings c st)"
    using i by (simp add: handle_invariant_def Init_settings_files)
  then have 3: "handle_invariant (snd (Init_output c e (Init_settings c st)))"
    by (rule Init_output_invariant)
  have 4: "handle_invariant
      (snd (Init_elastic c e (Init_meili c e (snd (Init_output c e (Init_settings c st))))))"
    using 3 by (simp add: handle_invariant_def Init_meili_files Init_elastic_files)
  show ?thesis using 3 4
    by (auto simp: Init_def split: prod.splits option.splits)
qed

lemma SetVersion_invariant: "handle_invariant st \<Longrightarrow> handle_invariant (SetVersion v st)"
  by (simp add: SetVersion_def handle_invariant_def)

lemma step_invariant: "handle_invariant st \<Longrightarrow> handle_invariant (step tr a st)"
  by (cases a)
     (simp_all add: Init_invariant rotation_tick_invariant teardown_invariant
        only_io_invariant[OF emit_io] SetVersion_invariant)

lemma run_invariant: "handle_invariant st \<Longrightarrow> handle_invariant (run tr acts st)"
  by (induction acts arbitrary: st) (simp_all add: step_invariant)

lemma start_invariant: "handle_invariant start_state"
  by (simp add: handle_invariant_def start_state_def at_most_one_open_Nil open_handles_def)

lemma rotateLog_close_before_open:
  "logFile st = Some h \<Longrightarrow> is_open h st \<Longrightarrow> rotateLog e st = (None, st') \<Longrightarrow>
   fs_events st' = fs_events st @ [EvClose h, EvOpen (Suc (length (fs_events st)))
        (logFilePath (logPath st) (now e)) [O_APPEND, O_WRONLY, O_CREATE] mode_0666]"
  by (auto simp: rotateLog_def File_Close_def os_OpenFile_def Let_def Logger_SetOutput_def
      split: if_splits)

text \<open>
  C4. In every run of a process from its start, at most one file handle is open after each
  event of the history of opens and closes, and every open handle is the current
  \<open>logFile\<close> (no handle is left open and forgotten). A rotation that succeeds on an open
  \<open>logFile\<close> closes that handle first and opens the newly dated file after it.
\<close>

theorem single_open_handle:
  "at_most_one_open (fs_events (run tr acts start_state)) \<and>
   set (open_handles (fs_events (run tr acts start_state)))
     \<subseteq> set_option (logFile (run tr acts start_state)) \<and>
   (logFile st = Some h \<and> is_open h st \<and> rotateLog e st = (None, st') \<longrightarrow>
      fs_events st' = fs_events st @
        [EvClose h,
         EvOpen (Suc (length (fs_events st))) (logFilePath (logPath st) (now e))
           [O_APPEND, O_WRONLY, O_CREATE] mode_0666])"
  using run_invariant[OF start_invariant, of tr acts]
    rotateLog_close_before_open[of st h e st']
  by (simp add: handle_invariant_def)

theorem single_open_handle_witness:
  "logFile after_init = Some 0 \<and> is_open 0 after_init \<and>
   fst (rotateLog (env_ok day2) after_init) = None \<and>
   fs_events (snd (rotateLog (env_ok day2) after_init)) =
     [EvOpen 0 ''/tmp/app.2024-03-09.log'' [O_APPEND, O_WRONLY, O_CREATE] mode_0666,
      EvClose 0,
      EvOpen 2 ''/tmp/app.2024-03-10.log'' [O_APPEND, O_WRONLY, O_CREATE] mode_0666] \<and>
   at_most_one_open (fs_events (run tracer0
      [DoInit config_file (env_ok day1), DoTick (env_ok day2), DoTeardown (env_ok day2)]
      start_state))"
proof -
  let ?acts = "[DoInit config_file (env_ok day1), DoTick (env_ok day2), DoTeardown (env_ok day2)]"
  let ?st' = "snd (rotateLog (env_ok day2) after_init)"
  have 1: "logFile after_init = Some 0" "is_open 0 after_init"
    by (simp_all add: after_init_eq start_state_def is_open_def open_handles_def)
  have 2: "fst (rotateLog (env_ok day2) after_init) = None"
    by (simp add: rotate_day2)
  then have 3: "rotateLog (env_ok day2) after_init = (None, ?st')"
    by (metis prod.collapse)
  note t = single_open_handle[of tracer0 ?acts after_init 0 "env_ok day2" ?st']
  from t have a: "at_most_one_open (fs_events (run tracer0 ?acts start_state))"
    by blast
  from t 1 3 have b: "fs_events ?st' = fs_events after_init @
        [EvClose 0,
         EvOpen (Suc (length (fs_events after_init)))
           (logFilePath (logPath after_init) (now (env_ok day2)))
           [O_APPEND, O_WRONLY, O_CREATE] mode_0666]"
    by blast
  have c: "fs_events after_init =
      [EvOpen 0 ''/tmp/app.2024-03-09.log'' [O_APPEND, O_WRONLY, O_CREATE] mode_0666]"
    "logFilePath (logPath after_init) (now (env_ok day2)) = ''/tmp/app.2024-03-10.log''"
    by (simp_all add: after_init_eq start_state_def env_ok_def path2)
  from b c have d: "fs_events ?st' =
     [EvOpen 0 ''/tmp/app.2024-03-09.log'' [O_APPEND, O_WRONLY, O_CREATE] mode_0666,
      EvClose 0,
      EvOpen 2 ''/tmp/app.2024-03-10.log'' [O_APPEND, O_WRONLY, O_CREATE] mode_0666]"
    by simp
  from 1 2 a d show ?thesis by blast
qed

subsection \<open>File names\<close>

lemma HasSuffix_iff: "HasSuffix s suf = suffix suf s"
  unfolding HasSuffix_def suffix_def
  by (metis append_eq_conv_conj append_take_drop_id diff_add_inverse2 length_append le_add2 length_drop)

lemma TrimSuffix_append: "TrimSuffix (b @ suf) suf = b"
  by (simp add: TrimSuffix_def HasSuffix_def)

lemma TrimSuffix_other: "\<not> suffix suf s \<Longrightarrow> TrimSuffix s suf = s"
  by (simp add: TrimSuffix_def HasSuffix_iff)

lemma decimal_1: "n < 10 \<Longrightarrow> decimal n = [digit n]"
  by (simp add: decimal.simps)

lemma decimal_2: "10 \<le> n \<Longrightarrow> n < 100 \<Longrightarrow> decimal n = [digit (n div 10), digit n]"
  by (subst decimal.simps) (simp add: decimal_1)

lemma decimal_3: "100 \<le> n \<Longrightarrow> n < 1000 \<Longrightarrow> decimal n = [digit (n div 100), digit (n div 10), digit n]"
  by (subst decimal.simps) (simp add: decimal_2 div_mult2_eq[symmetric])

lemma decimal_4: "1000 \<le> n \<Longrightarrow> n < 10000 \<Longrightarrow>
   decimal n = [digit (n div 1000), digit (n div 100), digit (n div 10), digit n]"
  by (subst decimal.simps) (simp add: decimal_3 div_mult2_eq[symmetric])

lemma appendInt_2: "n < 100 \<Longrightarrow> appendInt n 2 = [digit (n div 10), digit n]"
  by (cases "n < 10") (simp_all add: appendInt_def decimal_1 decimal_2 digit_def)

lemma appendInt_4: "n < 10000 \<Longrightarrow>
   appendInt n 4 = [digit (n div 1000), digit (n div 100), digit (n div 10), digit n]"
proof -
  assume n: "n < 10000"
  consider "n < 10" | "10 \<le> n" "n < 100" | "100 \<le> n" "n < 1000" | "1000 \<le> n"
    by linarith
  then show ?thesis
  proof cases
    case 1 then show ?thesis by (simp add: appendInt_def decimal_1 digit_def numeral_3_eq_3)
  next
    case 2 then show ?thesis by (simp add: appendInt_def decimal_2 digit_def numeral_2_eq_2)
  next
    case 3 then show ?thesis by (simp add: appendInt_def decimal_3 digit_def)
  next
    case 4 with n show ?thesis by (simp add: appendInt_def decimal_4)
  qed
qed

lemma Format_date_spec:
  "year t < 10000 \<Longrightarrow> month t < 100 \<Longrightarrow> day t < 100 \<Longrightarrow>
   Format_2006_01_02 t = spec_YYYY_MM_DD (year t) (month t) (day t)"
  by (simp add: Format_2006_01_02_def spec_YYYY_MM_DD_def appendInt_2 appendInt_4)

lemma mode_bits: "bit mode_0666 1 \<and> bit mode_0666 4 \<and> bit mode_0666 7"
  by (simp add: mode_0666_def bit_iff_odd)

lemma rotateLog_opens:
  "fs_events (snd (rotateLog e st)) = fs_events st @ evs \<Longrightarrow> EvOpen h p fl pm \<in> set evs \<Longrightarrow>
   p = logFilePath (logPath st) (now e) \<and> fl = [O_APPEND, O_WRONLY, O_CREATE] \<and> pm = mode_0666"
  by (auto simp: rotateLog_def File_Close_def os_OpenFile_def Let_def Logger_SetOutput_def
      split: if_splits option.splits)

lemma rotateLog_logPath: "logPath (snd (rotateLog e st)) = logPath st"
  by (auto simp: rotateLog_def File_Close_def os_OpenFile_def Let_def Logger_SetOutput_def
      split: if_splits option.splits)

lemma rotation_tick_events:
  "fs_events (rotation_tick e st) = fs_events (snd (rotateLog e st)) \<and>
   logPath (rotation_tick e st) = logPath st"
proof -
  obtain r st1 where f: "rotateLog e st = (r, st1)" by force
  have l: "logPath st1 = logPath st" using rotateLog_logPath[of e st] f by simp
  show ?thesis
  proof (cases r)
    case None
    with f l show ?thesis by (simp add: rotation_tick_def)
  next
    case (Some err)
    have "only_io st1 (snd (Logger_Errorf (''Error rotating log: '' @ error_text err) e st1))"
      by (rule Logger_Errorf_io)
    with Some f l show ?thesis
      by (simp add: rotation_tick_def only_io_def)
  qed
qed

lemma AddMeiliSearchHook_logPath: "logPath (AddMeiliSearchHook st) = logPath st"
  by (simp add: AddMeiliSearchHook_def Logger_AddHook_def Let_def)

lemma AddElasticSearchHook_logPath: "logPath (AddElasticSearchHook st) = logPath st"
  by (simp add: AddElasticSearchHook_def Logger_AddHook_def Let_def)

lemma Init_remote_logPath:
  "logPath (snd (Init_elastic c e (Init_meili c e st))) = logPath st"
  by (simp add: Init_elastic_def Init_meili_def AddMeiliSearchHook_logPath
      AddElasticSearchHook_logPath Let_def split: option.splits)

lemma Init_output_opens:
  assumes "fs_events (snd (Init_output c e st)) = fs_events st @ evs"
    and "EvOpen h p fl pm \<in> set evs"
  shows "p = logFilePath (OutputFile c) (now e) \<and> fl = [O_APPEND, O_WRONLY, O_CREATE] \<and>
         pm = mode_0666 \<and> logPath (snd (Init_output c e st)) = OutputFile c"
proof -
  let ?st1 = "st\<lparr>logPath := OutputFile c\<rparr>"
  have r: "fs_events (snd (rotateLog e ?st1)) = fs_events ?st1 @ evs \<Longrightarrow>
      p = logFilePath (logPath ?st1) (now e) \<and> fl = [O_APPEND, O_WRONLY, O_CREATE] \<and> pm = mode_0666"
    using rotateLog_opens[of e ?st1 evs h p fl pm] assms(2) by blast
  have l: "logPath (snd (rotateLog e ?st1)) = OutputFile c"
    by (simp add: rotateLog_logPath)
  show ?thesis using assms r l
    by (auto simp: Init_output_def setupLogFile_def Let_def Logger_SetOutput_def
        split: if_splits prod.splits option.splits)
qed

lemma Init_events:
  "fs_events (snd (Init c e st)) = fs_events (snd (Init_output c e (Init_settings c st))) \<and>
   logPath (snd (Init c e st)) = logPath (snd (Init_output c e (Init_settings c st)))"
proof -
  obtain r st3 where o: "Init_output c e (Init_settings c st) = (r, st3)" by force
  obtain r' st4 where m: "Init_elastic c e (Init_meili c e st3) = (r', st4)" by force
  have "fs_events st4 = fs_events st3 \<and> logPath st4 = logPath st3"
    using Init_elastic_files[of c e "Init_meili c e st3"] Init_meili_files[of c e st3]
      Init_remote_logPath[of c e st3] m by simp
  with o m show ?thesis
    by (cases r; cases r') (simp_all add: Init_def)
qed

lemma Init_opens:
  assumes "fs_events (snd (Init c e st)) = fs_events st @ evs"
    and "EvOpen h p fl pm \<in> set evs"
  shows "p = logFilePath (OutputFile c) (now e) \<and> fl = [O_APPEND, O_WRONLY, O_CREATE] \<and>
         pm = mode_0666 \<and> logPath (snd (Init c e st)) = OutputFile c"
  using Init_output_opens[of c e "Init_settings c st" evs h p fl pm] assms
  by (simp add: Init_events Init_settings_files)

lemma tick_opens:
  assumes "fs_events (step tr (DoTick e) st) = fs_events st @ evs"
    and "EvOpen h p fl pm \<in> set evs"
  shows "p = logFilePath (logPath st) (now e) \<and> fl = [O_APPEND, O_WRONLY, O_CREATE] \<and>
         pm = mode_0666 \<and> logPath (step tr (DoTick e) st) = logPath st"
proof (cases "0 < rotation_tasks st")
  case True
  with assms rotateLog_opens[of e st evs h p fl pm] show ?thesis
    by (simp add: rotation_tick_events)
next
  case False
  with assms show ?thesis by simp
qed

text \<open>
  C6. Every file that \<open>Init\<close> or a rotation tick opens is named by the base path
  without a trailing \<open>.log\<close>, a dot, the current date as \<open>YYYY-MM-DD\<close> and \<open>.log\<close>;
  the base path is the configured output file. The file is opened with
  \<open>O_APPEND|O_WRONLY|O_CREATE\<close> and permission \<open>0666\<close>, whose write bits for owner,
  group and others are set.
\<close>

theorem file_sink_file_names:
  assumes "a = DoInit c e \<or> a = DoTick e"
    and "fs_events (step tr a st) = fs_events st @ evs"
    and "EvOpen h p fl pm \<in> set evs"
  shows "p = TrimSuffix (logPath (step tr a st)) ''.log'' @ ''.'' @
             Format_2006_01_02 (now e) @ ''.log'' \<and>
         (a = DoInit c e \<longrightarrow> logPath (step tr a st) = OutputFile c) \<and>
         (a = DoTick e \<longrightarrow> logPath (step tr a st) = logPath st) \<and>
         (\<forall>b. logPath (step tr a st) = b @ ''.log'' \<longrightarrow>
              p = b @ ''.'' @ Format_2006_01_02 (now e) @ ''.log'') \<and>
         (\<not> suffix ''.log'' (logPath (step tr a st)) \<longrightarrow>
              p = logPath (step tr a st) @ ''.'' @ Format_2006_01_02 (now e) @ ''.log'') \<and>
         (year (now e) < 10000 \<and> month (now e) < 100 \<and> day (now e) < 100 \<longrightarrow>
              Format_2006_01_02 (now e) =
                spec_YYYY_MM_DD (year (now e)) (month (now e)) (day (now e))) \<and>
         fl = [O_APPEND, O_WRONLY, O_CREATE] \<and> pm = mode_0666 \<and>
         bit pm 1 \<and> bit pm 4 \<and> bit pm 7"
proof -
  have 1: "p = logFilePath (logPath (step tr a st)) (now e) \<and>
           fl = [O_APPEND, O_WRONLY, O_CREATE] \<and> pm = mode_0666"
    and 2: "a = DoInit c e \<longrightarrow> logPath (step tr a st) = OutputFile c"
    and 3: "a = DoTick e \<longrightarrow> logPath (step tr a st) = logPath st"
    using assms Init_opens[of c e st evs h p fl pm] tick_opens[of tr e st evs h p fl pm]
    by auto
  from 1 have 4: "\<forall>b. logPath (step tr a st) = b @ ''.log'' \<longrightarrow>
              p = b @ ''.'' @ Format_2006_01_02 (now e) @ ''.log''"
    by (simp add: logFilePath_def TrimSuffix_append)
  from 1 have 5: "\<not> suffix ''.log'' (logPath (step tr a st)) \<longrightarrow>
              p = logPath (step tr a st) @ ''.'' @ Format_2006_01_02 (now e) @ ''.log''"
    by (simp add: logFilePath_def TrimSuffix_other)
  from 1 have 6: "p = TrimSuffix (logPath (step tr a st)) ''.log'' @ ''.'' @
             Format_2006_01_02 (now e) @ ''.log''"
    by (simp add: logFilePath_def)
  from 1 2 3 4 5 6 show ?thesis
    using Format_date_spec[of "now e"] mode_bits by blast
qed

lemma step_init_eq: "step tracer0 (DoInit config_file (env_ok day1)) start_state = after_init"
  by (simp add: after_init_def)

theorem file_sink_file_names_witness:
  "fs_events (step tracer0 (DoInit config_file (env_ok day1)) start_state) =
     fs_events start_state @
     [EvOpen 0 ''/tmp/app.2024-03-09.log'' [O_APPEND, O_WRONLY, O_CREATE] mode_0666] \<and>
   OutputFile config_file = ''/tmp/app'' @ ''.log'' \<and>
   ''/tmp/app.2024-03-09.log'' = ''/tmp/app'' @ ''.'' @ spec_YYYY_MM_DD 2024 3 9 @ ''.log'' \<and>
   bit mode_0666 1 \<and> bit mode_0666 4 \<and> bit mode_0666 7"
proof -
  let ?a = "DoInit config_file (env_ok day1)"
  let ?ev = "EvOpen 0 ''/tmp/app.2024-03-09.log'' [O_APPEND, O_WRONLY, O_CREATE] mode_0666"
  have 1: "fs_events (step tracer0 ?a start_state) = fs_events start_state @ [?ev]"
    unfolding step_init_eq by (simp add: after_init_eq start_state_def)
  have 2: "?ev \<in> set [?ev]" by simp
  note t = file_sink_file_names[of ?a config_file "env_ok day1" tracer0 start_state "[?ev]"
      0 "''/tmp/app.2024-03-09.log''" "[O_APPEND, O_WRONLY, O_CREATE]" mode_0666, OF _ 1 2]
  have 3: "OutputFile config_file = ''/tmp/app'' @ ''.log''"
    by (simp add: config_file_def)
  have 4: "year (now (env_ok day1)) = 2024 \<and> month (now (env_ok day1)) = 3 \<and>
           day (now (env_ok day1)) = 9"
    by (simp add: env_ok_def day1_def)
  from t have 5: "logPath (step tracer0 ?a start_state) = OutputFile config_file"
    by blast
  from t 3 5 have 6: "''/tmp/app.2024-03-09.log'' =
       ''/tmp/app'' @ ''.'' @ Format_2006_01_02 (now (env_ok day1)) @ ''.log''"
    by metis
  from t 4 have 7: "Format_2006_01_02 (now (env_ok day1)) = spec_YYYY_MM_DD 2024 3 9"
    by simp
  from t have 8: "bit mode_0666 1 \<and> bit mode_0666 4 \<and> bit mode_0666 7"
    by blast
  from 1 3 6 7 8 show ?thesis by metis
qed

subsection \<open>Entries written\<close>

lemma hook_Fire_written: "written (snd (hook_Fire hk entry e st)) = written st"
  by (cases "(hk, entry, e, st)" rule: hook_Fire.cases)
     (auto simp: MeiliSearchHook_Fire_def ElasticSearchHook_Fire_def
       split: option.splits sum.splits)

lemma LevelHooks_Fire_written: "written (snd (LevelHooks_Fire hks entry e st)) = written st"
proof (induction hks arbitrary: st)
  case Nil
  show ?case by simp
next
  case (Cons hk hks)
  obtain r st1 where f: "hook_Fire hk entry e st = (r, st1)" by force
  have a: "written st1 = written st" using hook_Fire_written[of hk entry e st] f by simp
  show ?case using f a Cons[of st1] by (cases r) simp_all
qed

lemma Entry_fireHooks_written:
  "\<exists>new. written (Entry_fireHooks entry e st) = written st @ new \<and>
         (\<forall>x\<in>set new. \<exists>s. snd x = Diag s)"
proof -
  obtain r st1
    where f: "LevelHooks_Fire (Hooks (standardLogger st) (Lvl entry)) entry e st = (r, st1)"
    by force
  have "written st1 = written st"
    using LevelHooks_Fire_written[of "Hooks (standardLogger st) (Lvl entry)" entry e st] f
    by simp
  with f show ?thesis by (cases r) (simp_all add: Entry_fireHooks_def)
qed

lemma Entry_write_written:
  "\<exists>new. written (Entry_write entry st) = written st @ new \<and>
         (\<forall>x\<in>set new. (\<exists>s. snd x = Diag s) \<or> (\<exists>f. snd x = Line f entry))"
  by (auto simp: Entry_write_def Out_Write_def File_Write_def
      split: sink.splits option.splits)

lemma Entry_log_written:
  "\<exists>new. written (snd (Entry_log entry level msg e st)) = written st @ new \<and>
         (\<forall>x\<in>set new. (\<exists>s. snd x = Diag s) \<or>
                        (\<exists>f. snd x = Line f (complete_entry entry level msg e)))"
proof -
  let ?ne = "complete_entry entry level msg e"
  obtain n1 where 1: "written (Entry_fireHooks ?ne e st) = written st @ n1"
      "\<forall>x\<in>set n1. \<exists>s. snd x = Diag s"
    using Entry_fireHooks_written[of ?ne e st] by blast
  obtain n2 where 2: "written (Entry_write ?ne (Entry_fireHooks ?ne e st)) =
        written (Entry_fireHooks ?ne e st) @ n2"
      "\<forall>x\<in>set n2. (\<exists>s. snd x = Diag s) \<or> (\<exists>f. snd x = Line f ?ne)"
    using Entry_write_written[of ?ne "Entry_fireHooks ?ne e st"] by blast
  have "written (snd (Entry_log entry level msg e st)) = written st @ (n1 @ n2)"
    using 1 2 by (simp add: Entry_log_def Let_def)
  moreover have "\<forall>x\<in>set (n1 @ n2). (\<exists>s. snd x = Diag s) \<or> (\<exists>f. snd x = Line f ?ne)"
    using 1 2 by auto
  ultimately show ?thesis by blast
qed

lemma Entry_emit_written:
  "\<exists>new. written (snd (Entry_emit entry opn msg e st)) = written st @ new \<and>
         (\<forall>x\<in>set new. (\<exists>s. snd x = Diag s) \<or>
                        (\<exists>f. snd x = Line f (complete_entry entry (op_level opn) msg e)))"
proof -
  obtain r st1 where f: "Entry_Log entry (op_level opn) msg e st = (r, st1)" by force
  have w: "written (snd (Entry_emit entry opn msg e st)) = written st1"
    using f by (cases r) (simp_all add: Entry_emit_def)
  show ?thesis
  proof (cases "IsLevelEnabled (op_level opn) st")
    case True
    with f have "st1 = snd (Entry_log entry (op_level opn) msg e st)"
      by (simp add: Entry_Log_def)
    with w Entry_log_written[of entry "op_level opn" msg e st] show ?thesis by simp
  next
    case False
    with f have "st1 = st" by (simp add: Entry_Log_def)
    with w show ?thesis by simp
  qed
qed

lemma keys_differ: "TraceIDKey \<noteq> VersionKey"
  by (simp add: TraceIDKey_def VersionKey_def)

lemma entryFromContext_Data:
  "Data (entryFromContext tr ctx st) =
     (if version st \<noteq> []
      then [(TraceIDKey, Str (if getTraceID tr ctx = [] then snd (EnsureTraceID tr ctx)
                               else getTraceID tr ctx)),
            (VersionKey, Str (version st))]
      else [(TraceIDKey, Str (if getTraceID tr ctx = [] then snd (EnsureTraceID tr ctx)
                               else getTraceID tr ctx))])"
  using keys_differ
  by (simp add: entryFromContext_def Let_def Logger_WithFields_def Entry_WithFields_def
      newEntry_def)

lemma complete_entry_Data: "Data (complete_entry entry level msg e) = Data entry"
  by (simp add: complete_entry_def)

text \<open>
  C3. The entry that an emission function builds carries the trace id under \<open>trace_id\<close>:
  the one of the context, or a fresh one when the context has none. \<open>SetVersion\<close> stores
  the version, and every entry that an emission writes to the sink has the fields of that
  built entry: \<open>trace_id\<close> always, \<open>version\<close> exactly when the stored version is not
  empty.
\<close>

theorem emitted_entry_fields:
  "map_of (Data (entryFromContext tr ctx st)) TraceIDKey =
     Some (Str (if getTraceID tr ctx = [] then snd (EnsureTraceID tr ctx)
                else getTraceID tr ctx)) \<and>
   version (SetVersion v st) = v \<and>
   (written (snd (emit tr opn ctx msg e st)) = written st @ new \<and>
    (tgt, Line f entry) \<in> set new \<longrightarrow>
      TraceIDKey \<in> dom (map_of (Data entry)) \<and>
      (VersionKey \<in> dom (map_of (Data entry)) \<longleftrightarrow> version st \<noteq> []) \<and>
      Data entry = Data (entryFromContext tr ctx st))"
proof -
  have 1: "map_of (Data (entryFromContext tr ctx st)) TraceIDKey =
     Some (Str (if getTraceID tr ctx = [] then snd (EnsureTraceID tr ctx)
                else getTraceID tr ctx))"
    by (simp add: entryFromContext_Data)
  have 2: "TraceIDKey \<in> dom (map_of (Data (entryFromContext tr ctx st)))"
    using 1 by blast
  have 3: "VersionKey \<in> dom (map_of (Data (entryFromContext tr ctx st))) \<longleftrightarrow>
           version st \<noteq> []"
    using keys_differ by (auto simp: entryFromContext_Data split: if_splits)
  have 4: "Data entry = Data (entryFromContext tr ctx st)"
    if w: "written (snd (emit tr opn ctx msg e st)) = written st @ new"
      and m: "(tgt, Line f entry) \<in> set new"
  proof -
    obtain new' where n: "written (snd (emit tr opn ctx msg e st)) = written st @ new'"
      "\<forall>x\<in>set new'. (\<exists>s. snd x = Diag s) \<or>
         (\<exists>f. snd x = Line f (complete_entry (entryFromContext tr ctx st) (op_level opn) msg e))"
      using Entry_emit_written[of "entryFromContext tr ctx st" opn msg e st]
      by (auto simp: emit_def)
    from w n(1) have "new' = new" by simp
    with n(2) m have "entry = complete_entry (entryFromContext tr ctx st) (op_level opn) msg e"
      by force
    then show ?thesis by (simp add: complete_entry_Data)
  qed
  have 5: "version (SetVersion v st) = v" by (simp add: SetVersion_def)
  from 1 2 3 4 5 show ?thesis by metis
qed

lemma emit_hello:
  "written (snd (emit tracer0 OpInfo ''t1'' ''hello'' (env_ok day1) versioned)) =
     [(ToStderr, Line JSONFormatter hello_entry)]"
  by (simp add: versioned_def hello_entry_def eval_defs start_state_def new_logger_def
      tracer0_def env_ok_def zero_time_def day1_def)

theorem emitted_entry_fields_witness:
  "written (snd (emit tracer0 OpInfo ''t1'' ''hello'' (env_ok day1) versioned)) =
     written versioned @ [(ToStderr, Line JSONFormatter hello_entry)] \<and>
   TraceIDKey \<in> dom (map_of (Data hello_entry)) \<and>
   VersionKey \<in> dom (map_of (Data hello_entry)) \<and>
   version versioned = ''1.4.2'' \<and> map_of (Data hello_entry) TraceIDKey = Some (Str ''t1'')"
proof -
  have 1: "written (snd (emit tracer0 OpInfo ''t1'' ''hello'' (env_ok day1) versioned)) =
     written versioned @ [(ToStderr, Line JSONFormatter hello_entry)]"
    by (simp add: emit_hello) (simp add: versioned_def SetVersion_def start_state_def)
  have 2: "(ToStderr, Line JSONFormatter hello_entry) \<in>
      set [(ToStderr, Line JSONFormatter hello_entry)]"
    by simp
  note t = emitted_entry_fields[of tracer0 "''t1''" versioned "''1.4.2''" OpInfo
      "''hello''" "env_ok day1" "[(ToStderr, Line JSONFormatter hello_entry)]" ToStderr
      JSONFormatter hello_entry]
  have 3: "version versioned = ''1.4.2''"
    by (simp add: versioned_def SetVersion_def)
  from t 1 2 have 4: "TraceIDKey \<in> dom (map_of (Data hello_entry))"
    "VersionKey \<in> dom (map_of (Data hello_entry)) \<longleftrightarrow> version versioned \<noteq> []"
    by blast+
  have 5: "map_of (Data hello_entry) TraceIDKey = Some (Str ''t1'')"
    by (simp add: hello_entry_def)
  from 1 3 4 5 show ?thesis by simp
qed

subsection \<open>Hook registration\<close>

lemma all_levels: "l \<in> set AllLevels"
  by (cases l) (simp_all add: AllLevels_def)

lemma hookExists_iff: "hookExists hk st = (\<exists>l. hk \<in> set (Hooks (standardLogger st) l))"
  using all_levels by (auto simp: hookExists_def list_ex_iff)

lemma Logger_AddHook_all:
  "Hooks (standardLogger (Logger_AddHook hk AllLevels st)) l = Hooks (standardLogger st) l @ [hk]"
  by (simp add: Logger_AddHook_def all_levels)

lemma hookExists_after_add: "hookExists hk (Logger_AddHook hk AllLevels st)"
  by (simp add: hookExists_iff Logger_AddHook_all)

lemma Logger_AddHook_clients:
  "meiliClient (Logger_AddHook hk ls st) = meiliClient st \<and>
   esClient (Logger_AddHook hk ls st) = esClient st"
  by (simp add: Logger_AddHook_def)

lemma AddMeiliSearchHook_twice:
  "AddMeiliSearchHook (AddMeiliSearchHook st) = AddMeiliSearchHook st"
  by (simp add: AddMeiliSearchHook_def Let_def hookExists_after_add Logger_AddHook_clients)

lemma AddElasticSearchHook_twice:
  "AddElasticSearchHook (AddElasticSearchHook st) = AddElasticSearchHook st"
  by (simp add: AddElasticSearchHook_def Let_def hookExists_after_add Logger_AddHook_clients)

lemma funpow_idem: "(\<And>x. f (f x) = f x) \<Longrightarrow> 1 \<le> N \<Longrightarrow> (f ^^ N) x = f x"
proof (induction N)
  case 0
  then show ?case by simp
next
  case (Suc N)
  show ?case
  proof (cases "N = 0")
    case True
    then show ?thesis by simp
  next
    case False
    with Suc have "(f ^^ N) x = f x" by simp
    with Suc.prems(1) show ?thesis by simp
  qed
qed

lemma no_hooks_of_type:
  "\<forall>l. hooks_of_type t l st = [] \<Longrightarrow> \<not> hookExists (Ptr t a) st"
proof
  assume n: "\<forall>l. hooks_of_type t l st = []" and "hookExists (Ptr t a) st"
  then obtain l where "Ptr t a \<in> set (Hooks (standardLogger st) l)"
    by (auto simp: hookExists_iff)
  then have "Ptr t a \<in> set (hooks_of_type t l st)"
    by (simp add: hooks_of_type_def)
  with n show False by simp
qed

lemma AddMeiliSearchHook_first:
  assumes "meiliClient st \<noteq> None" and "\<forall>l. hooks_of_type MeiliSearchHook l st = []"
  shows "hooks_of_type MeiliSearchHook l (AddMeiliSearchHook st) = [Ptr MeiliSearchHook zerobase]"
proof -
  have "\<not> hookExists (Ptr MeiliSearchHook zerobase) st"
    using assms(2) by (rule no_hooks_of_type)
  with assms(1) have "AddMeiliSearchHook st = Logger_AddHook (Ptr MeiliSearchHook zerobase) AllLevels st"
    by (simp add: AddMeiliSearchHook_def Let_def)
  moreover have "filter (\<lambda>hk. dyn_type hk = MeiliSearchHook) (Hooks (standardLogger st) l) = []"
    using assms(2) by (simp add: hooks_of_type_def)
  ultimately show ?thesis
    by (simp add: hooks_of_type_def Logger_AddHook_all)
qed

lemma AddElasticSearchHook_first:
  assumes "esClient st \<noteq> None" and "\<forall>l. hooks_of_type ElasticSearchHook l st = []"
  shows "hooks_of_type ElasticSearchHook l (AddElasticSearchHook st) =
           [Ptr ElasticSearchHook zerobase]"
proof -
  have "\<not> hookExists (Ptr ElasticSearchHook zerobase) st"
    using assms(2) by (rule no_hooks_of_type)
  with assms(1) have "AddElasticSearchHook st =
      Logger_AddHook (Ptr ElasticSearchHook zerobase) AllLevels st"
    by (simp add: AddElasticSearchHook_def Let_def)
  moreover have "filter (\<lambda>hk. dyn_type hk = ElasticSearchHook) (Hooks (standardLogger st) l) = []"
    using assms(2) by (simp add: hooks_of_type_def)
  ultimately show ?thesis
    by (simp add: hooks_of_type_def Logger_AddHook_all)
qed

text \<open>
  C2. With the backend's client configured and no hook of that type on the logger yet,
  calling \<open>AddMeiliSearchHook\<close> (or \<open>AddElasticSearchHook\<close>) any number \<open>N \<ge> 1\<close> of
  times leaves exactly one hook of that type at every level; in any state, \<open>N\<close> calls
  have the effect of one, because \<open>hookExists\<close> finds the hook the first call added.
\<close>

theorem hook_registration_idempotent:
  assumes "1 \<le> N"
  shows "(meiliClient st \<noteq> None \<and> (\<forall>l. hooks_of_type MeiliSearchHook l st = []) \<longrightarrow>
            (\<forall>l. hooks_of_type MeiliSearchHook l ((AddMeiliSearchHook ^^ N) st) =
                   [Ptr MeiliSearchHook zerobase])) \<and>
         (esClient st \<noteq> None \<and> (\<forall>l. hooks_of_type ElasticSearchHook l st = []) \<longrightarrow>
            (\<forall>l. hooks_of_type ElasticSearchHook l ((AddElasticSearchHook ^^ N) st) =
                   [Ptr ElasticSearchHook zerobase])) \<and>
         (AddMeiliSearchHook ^^ N) st = AddMeiliSearchHook st \<and>
         (AddElasticSearchHook ^^ N) st = AddElasticSearchHook st"
proof -
  have m: "(AddMeiliSearchHook ^^ N) st = AddMeiliSearchHook st"
    using assms by (intro funpow_idem AddMeiliSearchHook_twice)
  have s: "(AddElasticSearchHook ^^ N) st = AddElasticSearchHook st"
    using assms by (intro funpow_idem AddElasticSearchHook_twice)
  show ?thesis
    using m s AddMeiliSearchHook_first[of st] AddElasticSearchHook_first[of st] by simp
qed

theorem hook_registration_idempotent_witness:
  "(1::nat) \<le> 3 \<and> meiliClient with_clients \<noteq> None \<and> esClient with_clients \<noteq> None \<and>
   (\<forall>l. hooks_of_type MeiliSearchHook l with_clients = []) \<and>
   (\<forall>l. hooks_of_type ElasticSearchHook l with_clients = []) \<and>
   hooks_of_type MeiliSearchHook InfoLevel ((AddMeiliSearchHook ^^ 3) with_clients) =
     [Ptr MeiliSearchHook zerobase] \<and>
   hooks_of_type ElasticSearchHook InfoLevel ((AddElasticSearchHook ^^ 3) with_clients) =
     [Ptr ElasticSearchHook zerobase]"
proof -
  have 0: "(1::nat) \<le> 3" by simp
  have 1: "meiliClient with_clients \<noteq> None" "esClient with_clients \<noteq> None"
    by (simp_all add: with_clients_def)
  have 2: "\<forall>l. hooks_of_type MeiliSearchHook l with_clients = []"
    "\<forall>l. hooks_of_type ElasticSearchHook l with_clients = []"
    by (simp_all add: with_clients_def hooks_of_type_def start_state_def new_logger_def)
  note t = hook_registration_idempotent[OF 0, of with_clients]
  from t 0 1 2 show ?thesis by blast
qed

subsection \<open>A rotation whose open fails\<close>

lemma one_line_eq:
  "one_line = after_init\<lparr>written :=
      [(ToFile ''/tmp/app.2024-03-09.log'', Line JSONFormatter before_entry)]\<rparr>"
  by (simp add: one_line_def after_init_eq before_entry_def eval_defs start_state_def
      new_logger_def tracer0_def env_ok_def zero_time_def day1_def)

lemma failed_rotation_eq:
  "failed_rotation = one_line\<lparr>
      fs_events := [EvOpen 0 ''/tmp/app.2024-03-09.log'' [O_APPEND, O_WRONLY, O_CREATE] mode_0666,
                    EvClose 0],
      written := [(ToFile ''/tmp/app.2024-03-09.log'', Line JSONFormatter before_entry),
                  (ToStderr, Diag ''Failed to write to log'')]\<rparr>"
  by (simp add: failed_rotation_def one_line_eq after_init_eq env_open_fails_def eval_defs
      start_state_def new_logger_def env_ok_def)

text \<open>
  C1, at a failing input. A log file is open and holds one line. At the tick the old file
  is closed and opening the new one fails. \<open>rotateLog\<close> returns the error and leaves
  \<open>logFile\<close> and the logger's output on the handle it has just closed: the entry that
  reports the failure cannot be written (logrus prints its own diagnostic on standard
  error), and an entry emitted afterwards does not reach the previous file either.
\<close>

theorem rotation_open_failure_closes_sink:
  "file_lines ''/tmp/app.2024-03-09.log'' one_line = [Line JSONFormatter before_entry] \<and>
   is_open 0 one_line \<and> Out (standardLogger one_line) = FileOut 0 \<and>
   fst (rotateLog env_open_fails one_line) = Some EOpenFile \<and>
   logFile failed_rotation = Some 0 \<and> Out (standardLogger failed_rotation) = FileOut 0 \<and>
   \<not> is_open 0 failed_rotation \<and>
   written failed_rotation = written one_line @ [(ToStderr, Diag ''Failed to write to log'')] \<and>
   written (snd (emit tracer0 OpInfo ''t1'' ''after'' (env_ok day2) failed_rotation)) =
     written failed_rotation @ [(ToStderr, Diag ''Failed to write to log'')] \<and>
   file_lines ''/tmp/app.2024-03-09.log''
      (snd (emit tracer0 OpInfo ''t1'' ''after'' (env_ok day2) failed_rotation)) =
     [Line JSONFormatter before_entry]"
  by (simp add: failed_rotation_eq one_line_eq after_init_eq env_open_fails_def eval_defs
      start_state_def new_logger_def env_ok_def file_lines_def tracer0_def)

subsection \<open>Teardown\<close>

lemma File_Close_closes: "\<not> is_open h (snd (File_Close h e st))"
  by (simp add: File_Close_def is_open_def open_handles_snoc)

lemma File_Close_tasks: "rotation_tasks (snd (File_Close h e st)) = rotation_tasks st"
  by (simp add: File_Close_def)

text \<open>
  C9, as the code has it. The teardown closure closes the current log file, if there is
  one: afterwards that handle is not open, and in a state that satisfies the handle
  invariant (every state of a run does) no handle is open at all. With no log file it
  changes nothing. It leaves the rotation goroutines alone.
\<close>

theorem teardown_closes_file_only:
  "rotation_tasks (teardown e st) = rotation_tasks st \<and>
   (logFile st = Some h \<longrightarrow> \<not> is_open h (teardown e st)) \<and>
   (logFile st = None \<longrightarrow> teardown e st = st) \<and>
   (handle_invariant st \<longrightarrow> open_handles (fs_events (teardown e st)) = [])"
proof -
  have 1: "rotation_tasks (teardown e st) = rotation_tasks st"
    by (simp add: teardown_def File_Close_tasks split: option.splits)
  have 2: "logFile st = Some h \<longrightarrow> \<not> is_open h (teardown e st)"
    by (simp add: teardown_def File_Close_closes)
  have 3: "logFile st = None \<longrightarrow> teardown e st = st"
    by (simp add: teardown_def)
  have 4: "open_handles (fs_events (teardown e st)) = []" if i: "handle_invariant st"
  proof (cases "logFile st")
    case None
    with i show ?thesis by (simp add: teardown_def handle_invariant_def)
  next
    case (Some h')
    from i Some have s: "set (open_handles (fs_events st)) \<subseteq> {h'}"
      by (simp add: handle_invariant_def)
    show ?thesis
    proof (cases "is_open h' st")
      case True
      with Some s show ?thesis
        by (simp add: teardown_def File_Close_def open_handles_snoc removeAll_only)
    next
      case False
      with s have "open_handles (fs_events st) = []"
        by (cases "open_handles (fs_events st)") (auto simp: is_open_def)
      with Some False show ?thesis by (simp add: teardown_def File_Close_def)
    qed
  qed
  from 1 2 3 4 show ?thesis by blast
qed

lemma torn_down_eq:
  "torn_down = after_init\<lparr>fs_events :=
     [EvOpen 0 ''/tmp/app.2024-03-09.log'' [O_APPEND, O_WRONLY, O_CREATE] mode_0666, EvClose 0]\<rparr>"
  by (simp add: torn_down_def after_init_eq eval_defs start_state_def env_ok_def)

theorem teardown_closes_file_only_witness:
  "logFile after_init = Some 0 \<and> handle_invariant after_init \<and>
   \<not> is_open 0 (teardown (env_ok day1) after_init) \<and>
   open_handles (fs_events (teardown (env_ok day1) after_init)) = [] \<and>
   rotation_tasks (teardown (env_ok day1) after_init) = 1 \<and>
   logFile start_state = None \<and> teardown (env_ok day1) start_state = start_state"
proof -
  have 1: "logFile after_init = Some 0" "rotation_tasks after_init = 1"
    by (simp_all add: after_init_eq start_state_def)
  have 2: "handle_invariant after_init"
    unfolding after_init_def using Init_invariant[OF start_invariant] .
  have 3: "logFile start_state = None" by (simp add: start_state_def)
  note t = teardown_closes_file_only[of "env_ok day1" after_init 0]
  note u = teardown_closes_file_only[of "env_ok day1" start_state 0]
  from t u 1 2 3 show ?thesis by simp
qed

text \<open>
  C9 as stated fails: after \<open>Init\<close> with a log file and the teardown, the rotation
  goroutine that \<open>Init\<close> started still exists, and at the next tick it runs
  \<open>rotateLog\<close>, which fails on the closed file and reports it.
\<close>

theorem teardown_leaves_rotation_running:
  "fst (Init config_file (env_ok day1) start_state) = Inr Cleanup \<and>
   torn_down = teardown (env_ok day1) (snd (Init config_file (env_ok day1) start_state)) \<and>
   rotation_tasks after_init = 1 \<and> rotation_tasks torn_down = 1 \<and>
   fst (rotateLog (env_ok day2) torn_down) = Some EFileAlreadyClosed \<and>
   written torn_down = [] \<and>
   written (step tracer0 (DoTick (env_ok day2)) torn_down) =
     [(ToStderr, Diag ''Failed to write to log'')]"
proof -
  have 1: "fst (Init config_file (env_ok day1) start_state) = Inr Cleanup"
    by (simp add: eval_defs config_file_def no_meili_def no_elastic_def env_ok_def
      start_state_def new_logger_def logrus_Level_def path1)
  have 2: "rotation_tasks after_init = 1 \<and> rotation_tasks torn_down = 1 \<and>
   fst (rotateLog (env_ok day2) torn_down) = Some EFileAlreadyClosed \<and>
   written torn_down = [] \<and>
   written (step tracer0 (DoTick (env_ok day2)) torn_down) =
     [(ToStderr, Diag ''Failed to write to log'')]"
    by (simp add: torn_down_eq after_init_eq eval_defs start_state_def new_logger_def env_ok_def)
  have 3: "torn_down = teardown (env_ok day1) (snd (Init config_file (env_ok day1) start_state))"
    by (simp only: torn_down_def after_init_def)
  from 1 2 3 show ?thesis by blast
qed

subsection \<open>Init\<close>

lemma rotateLog_frame:
  "rotation_tasks (snd (rotateLog e st)) = rotation_tasks st \<and>
   LoggerLevel (standardLogger (snd (rotateLog e st))) = LoggerLevel (standardLogger st) \<and>
   Formatter (standardLogger (snd (rotateLog e st))) = Formatter (standardLogger st)"
  by (auto simp: rotateLog_def File_Close_def os_OpenFile_def Let_def Logger_SetOutput_def
      split: if_splits option.splits)

lemma Init_output_settings:
  "LoggerLevel (standardLogger (snd (Init_output c e st))) = LoggerLevel (standardLogger st) \<and>
   Formatter (standardLogger (snd (Init_output c e st))) = Formatter (standardLogger st)"
proof -
  have "LoggerLevel (standardLogger (snd (rotateLog e (st\<lparr>logPath := OutputFile c\<rparr>)))) =
          LoggerLevel (standardLogger st) \<and>
        Formatter (standardLogger (snd (rotateLog e (st\<lparr>logPath := OutputFile c\<rparr>)))) =
          Formatter (standardLogger st)"
    using rotateLog_frame[of e "st\<lparr>logPath := OutputFile c\<rparr>"] by simp
  then show ?thesis
    by (auto simp: Init_output_def setupLogFile_def Let_def Logger_SetOutput_def
        split: prod.splits option.splits)
qed

lemma Init_meili_settings:
  "LoggerLevel (standardLogger (Init_meili c e st)) = LoggerLevel (standardLogger st) \<and>
   Formatter (standardLogger (Init_meili c e st)) = Formatter (standardLogger st)"
  by (simp add: Init_meili_def AddMeiliSearchHook_def Logger_AddHook_def Let_def)

lemma Init_elastic_failure:
  "Addresses (Elasticsearch c) \<noteq> [] \<Longrightarrow> snd (es_new e) = Some err \<Longrightarrow>
   Init_elastic c e st =
     (Some (EWrapped ''error initializing Elasticsearch client'' err),
      st\<lparr>esClient := fst (es_new e)\<rparr>)"
  by (simp add: Init_elastic_def Let_def)

lemma Init_settings_settings:
  "LoggerLevel (standardLogger (Init_settings c st)) = logrus_Level (Level c) \<and>
   Formatter (standardLogger (Init_settings c st)) =
     (if Format c = ''json'' then JSONFormatter else TextFormatter)"
  by (simp add: Init_settings_def Logger_SetFormatter_def Logger_SetLevel_def)

text \<open>
  C7, as the code has it. When the sink has been set up and the construction of the
  Elasticsearch client fails, \<open>Init\<close> returns no teardown closure and the error, wrapped
  with the text \<open>error initializing Elasticsearch client\<close>; the level and the formatter
  that the call has set stay in force.
\<close>

theorem Init_elastic_error:
  assumes "Addresses (Elasticsearch c) \<noteq> []"
    and "snd (es_new e) = Some err"
    and "fst (Init_output c e (Init_settings c st)) = None"
  shows "fst (Init c e st) = Inl (EWrapped ''error initializing Elasticsearch client'' err) \<and>
         LoggerLevel (standardLogger (snd (Init c e st))) = logrus_Level (Level c) \<and>
         Formatter (standardLogger (snd (Init c e st))) =
           (if Format c = ''json'' then JSONFormatter else TextFormatter)"
proof -
  obtain st3 where o: "Init_output c e (Init_settings c st) = (None, st3)"
    using assms(3) by (metis prod.collapse)
  have s3: "LoggerLevel (standardLogger st3) = logrus_Level (Level c) \<and>
        Formatter (standardLogger st3) =
          (if Format c = ''json'' then JSONFormatter else TextFormatter)"
    using Init_output_settings[of c e "Init_settings c st"] o
    by (simp add: Init_settings_settings)
  have i: "Init c e st = (Inl (EWrapped ''error initializing Elasticsearch client'' err),
      (Init_meili c e st3)\<lparr>esClient := fst (es_new e)\<rparr>)"
    using o Init_elastic_failure[OF assms(1,2)] by (simp add: Init_def)
  show ?thesis using i s3 Init_meili_settings[of c e st3] by simp
qed


lemma failed_init_eq:
  "Init config_file_es env_es_fails start_state =
     (Inl (EWrapped ''error initializing Elasticsearch client'' (ERemote ''no such host'')),
      after_init)"
  by (simp add: after_init_eq eval_defs config_file_es_def elastic_addr_def config_file_def
      no_meili_def no_elastic_def env_es_fails_def env_ok_def start_state_def new_logger_def
      logrus_Level_def path1)

theorem Init_elastic_error_witness:
  "Addresses (Elasticsearch config_file_es) \<noteq> [] \<and>
   snd (es_new env_es_fails) = Some (ERemote ''no such host'') \<and>
   fst (Init_output config_file_es env_es_fails (Init_settings config_file_es start_state)) = None \<and>
   fst (Init config_file_es env_es_fails start_state) =
     Inl (EWrapped ''error initializing Elasticsearch client'' (ERemote ''no such host'')) \<and>
   LoggerLevel (standardLogger (snd (Init config_file_es env_es_fails start_state))) = 4 \<and>
   Formatter (standardLogger (snd (Init config_file_es env_es_fails start_state))) = JSONFormatter"
proof -
  have 1: "Addresses (Elasticsearch config_file_es) \<noteq> []"
    by (simp add: config_file_es_def elastic_addr_def)
  have 2: "snd (es_new env_es_fails) = Some (ERemote ''no such host'')"
    by (simp add: env_es_fails_def)
  have 3: "fst (Init_output config_file_es env_es_fails
                 (Init_settings config_file_es start_state)) = None"
    by (simp add: eval_defs config_file_es_def config_file_def env_es_fails_def env_ok_def
        start_state_def new_logger_def)
  have 4: "logrus_Level (Level config_file_es) = 4" "Format config_file_es = ''json''"
    by (simp_all add: config_file_es_def config_file_def logrus_Level_def)
  note t = Init_elastic_error[OF 1 2 3]
  from t 1 2 3 4 show ?thesis by simp
qed

text \<open>
  C7 as stated fails: the call that returns the Elasticsearch error has already opened
  the log file, made it the logger's output and started the rotation goroutine, and an
  entry emitted afterwards is written to that file.
\<close>

theorem Init_elastic_error_keeps_sink:
  "fst (Init config_file_es env_es_fails start_state) =
     Inl (EWrapped ''error initializing Elasticsearch client'' (ERemote ''no such host'')) \<and>
   failed_init = snd (Init config_file_es env_es_fails start_state) \<and>
   Out (standardLogger start_state) = Stderr \<and> fs_events start_state = [] \<and>
   rotation_tasks start_state = 0 \<and>
   Out (standardLogger failed_init) = FileOut 0 \<and> is_open 0 failed_init \<and>
   rotation_tasks failed_init = 1 \<and>
   file_lines ''/tmp/app.2024-03-09.log''
     (snd (emit tracer0 OpInfo ''t1'' ''before'' (env_ok day1) failed_init)) =
     [Line JSONFormatter before_entry]"
proof -
  have 1: "failed_init = after_init"
    by (simp add: failed_init_def failed_init_eq)
  have 2: "Out (standardLogger start_state) = Stderr \<and> fs_events start_state = [] \<and>
           rotation_tasks start_state = 0"
    by (simp add: start_state_def new_logger_def)
  have 3: "Out (standardLogger after_init) = FileOut 0 \<and> is_open 0 after_init \<and>
           rotation_tasks after_init = 1"
    by (simp add: after_init_eq start_state_def new_logger_def is_open_def open_handles_def)
  have 4: "file_lines ''/tmp/app.2024-03-09.log''
     (snd (emit tracer0 OpInfo ''t1'' ''before'' (env_ok day1) after_init)) =
     [Line JSONFormatter before_entry]"
    using one_line_eq by (simp add: one_line_def file_lines_def)
  have 5: "failed_init = snd (Init config_file_es env_es_fails start_state)"
    by (simp only: failed_init_def)
  have 6: "fst (Init config_file_es env_es_fails start_state) =
     Inl (EWrapped ''error initializing Elasticsearch client'' (ERemote ''no such host''))"
    by (simp add: failed_init_eq)
  from 6 5 2 3 4 show ?thesis unfolding 1 by blast
qed

subsection \<open>Init with the file output and no path\<close>

lemma Init_output_no_path:
  "Output c = ''file'' \<Longrightarrow> OutputFile c = [] \<Longrightarrow>
   Init_output c e st = (None, st\<lparr>logPath := []\<rparr>)"
  by (simp add: Init_output_def Let_def)

lemma AddHook_frame:
  "fs_events (Logger_AddHook hk ls st) = fs_events st \<and>
   rotation_tasks (Logger_AddHook hk ls st) = rotation_tasks st \<and>
   logFile (Logger_AddHook hk ls st) = logFile st \<and>
   Out (standardLogger (Logger_AddHook hk ls st)) = Out (standardLogger st)"
  by (simp add: Logger_AddHook_def)

lemma Init_meili_frame:
  "fs_events (Init_meili c e st) = fs_events st \<and>
   rotation_tasks (Init_meili c e st) = rotation_tasks st \<and>
   logFile (Init_meili c e st) = logFile st \<and>
   Out (standardLogger (Init_meili c e st)) = Out (standardLogger st)"
  by (simp add: Init_meili_def AddMeiliSearchHook_def Let_def AddHook_frame)

lemma Init_elastic_frame:
  "fs_events (snd (Init_elastic c e st)) = fs_events st \<and>
   rotation_tasks (snd (Init_elastic c e st)) = rotation_tasks st \<and>
   logFile (snd (Init_elastic c e st)) = logFile st \<and>
   Out (standardLogger (snd (Init_elastic c e st))) = Out (standardLogger st)"
  by (simp add: Init_elastic_def AddElasticSearchHook_def Let_def AddHook_frame
      split: option.splits)

lemma Init_elastic_ok:
  "Addresses (Elasticsearch c) = [] \<or> snd (es_new e) = None \<Longrightarrow>
   fst (Init_elastic c e st) = None"
  by (auto simp: Init_elastic_def Let_def)

lemma Init_settings_frame:
  "fs_events (Init_settings c st) = fs_events st \<and>
   rotation_tasks (Init_settings c st) = rotation_tasks st \<and>
   logFile (Init_settings c st) = logFile st \<and>
   Out (standardLogger (Init_settings c st)) = Out (standardLogger st)"
  by (simp add: Init_settings_def Logger_SetFormatter_def Logger_SetLevel_def)

text \<open>
  C10, as the code has it. With output \<open>file\<close> and an empty path, and with no
  Elasticsearch addresses or a client construction that succeeds, \<open>Init\<close> returns the
  teardown closure; it opens no file, starts no rotation goroutine and leaves the logger's
  output and \<open>logFile\<close> as they were. When no log file was set before, the teardown
  changes nothing.
\<close>

theorem Init_file_without_path:
  assumes "Output c = ''file''" and "OutputFile c = []"
    and "Addresses (Elasticsearch c) = [] \<or> snd (es_new e) = None"
  shows "fst (Init c e st) = Inr Cleanup \<and>
         fs_events (snd (Init c e st)) = fs_events st \<and>
         rotation_tasks (snd (Init c e st)) = rotation_tasks st \<and>
         Out (standardLogger (snd (Init c e st))) = Out (standardLogger st) \<and>
         logFile (snd (Init c e st)) = logFile st \<and>
         (logFile st = None \<longrightarrow> teardown e' (snd (Init c e st)) = snd (Init c e st))"
proof -
  let ?st3 = "(Init_settings c st)\<lparr>logPath := []\<rparr>"
  have o: "Init_output c e (Init_settings c st) = (None, ?st3)"
    using assms(1,2) by (rule Init_output_no_path)
  obtain st4 where el: "Init_elastic c e (Init_meili c e ?st3) = (None, st4)"
    using Init_elastic_ok[OF assms(3), of "Init_meili c e ?st3"] by (metis prod.collapse)
  have i: "Init c e st = (Inr Cleanup, st4)"
    using o el by (simp add: Init_def)
  have f: "fs_events st4 = fs_events st \<and> rotation_tasks st4 = rotation_tasks st \<and>
           logFile st4 = logFile st \<and> Out (standardLogger st4) = Out (standardLogger st)"
    using Init_elastic_frame[of c e "Init_meili c e ?st3"] Init_meili_frame[of c e ?st3]
      Init_settings_frame[of c st] el
    by simp
  have t: "logFile st = None \<longrightarrow> teardown e' st4 = st4"
    using f by (simp add: teardown_def)
  from i f t show ?thesis by simp
qed

theorem Init_file_without_path_witness:
  "Output config_no_path = ''file'' \<and> OutputFile config_no_path = [] \<and>
   Addresses (Elasticsearch config_no_path) = [] \<and> logFile start_state = None \<and>
   fst (Init config_no_path (env_ok day1) start_state) = Inr Cleanup \<and>
   fs_events (snd (Init config_no_path (env_ok day1) start_state)) = [] \<and>
   rotation_tasks (snd (Init config_no_path (env_ok day1) start_state)) = 0 \<and>
   Out (standardLogger (snd (Init config_no_path (env_ok day1) start_state))) = Stderr \<and>
   teardown (env_ok day2) (snd (Init config_no_path (env_ok day1) start_state)) =
     snd (Init config_no_path (env_ok day1) start_state)"
proof -
  have 1: "Output config_no_path = ''file''" "OutputFile config_no_path = []"
    by (simp_all add: config_no_path_def config_file_def)
  have 2: "Addresses (Elasticsearch config_no_path) = []"
    by (simp add: config_no_path_def config_file_def no_elastic_def)
  then have 3: "Addresses (Elasticsearch config_no_path) = [] \<or>
       snd (es_new (env_ok day1)) = None"
    by simp
  have 4: "logFile start_state = None \<and> fs_events start_state = [] \<and>
       rotation_tasks start_state = 0 \<and> Out (standardLogger start_state) = Stderr"
    by (simp add: start_state_def new_logger_def)
  note t = Init_file_without_path[OF 1 3, of start_state "env_ok day2"]
  from t 1 2 4 show ?thesis by simp
qed

text \<open>
  C10 as stated fails: with output \<open>file\<close>, an empty path and Elasticsearch addresses
  whose client cannot be constructed, \<open>Init\<close> returns the error and no teardown closure.
  And when an earlier \<open>Init\<close> has opened a log file, the teardown that \<open>Init\<close> with
  an empty path returns closes that file.
\<close>

theorem Init_file_without_path_elastic_error:
  "Output config_no_path_es = ''file'' \<and> OutputFile config_no_path_es = [] \<and>
   fst (Init config_no_path_es env_es_fails start_state) =
     Inl (EWrapped ''error initializing Elasticsearch client'' (ERemote ''no such host'')) \<and>
   Output config_no_path = ''file'' \<and> OutputFile config_no_path = [] \<and>
   fst (Init config_no_path (env_ok day2) after_init) = Inr Cleanup \<and>
   is_open 0 (snd (Init config_no_path (env_ok day2) after_init)) \<and>
   \<not> is_open 0 (teardown (env_ok day2) (snd (Init config_no_path (env_ok day2) after_init)))"
proof -
  have 1: "Output config_no_path_es = ''file'' \<and> OutputFile config_no_path_es = [] \<and>
   fst (Init config_no_path_es env_es_fails start_state) =
     Inl (EWrapped ''error initializing Elasticsearch client'' (ERemote ''no such host''))"
    by (simp add: eval_defs config_no_path_es_def elastic_addr_def config_file_def
      no_meili_def no_elastic_def env_es_fails_def env_ok_def start_state_def new_logger_def
      logrus_Level_def)
  have 2: "Output config_no_path = ''file'' \<and> OutputFile config_no_path = [] \<and>
   fst (Init config_no_path (env_ok day2) after_init) = Inr Cleanup \<and>
   is_open 0 (snd (Init config_no_path (env_ok day2) after_init)) \<and>
   \<not> is_open 0 (teardown (env_ok day2) (snd (Init config_no_path (env_ok day2) after_init)))"
    by (simp add: after_init_eq eval_defs config_no_path_def config_file_def
      no_meili_def no_elastic_def env_ok_def start_state_def new_logger_def logrus_Level_def)
  from 1 2 show ?thesis by blast
qed

subsection \<open>What the hooks forward\<close>

lemma Entry_WithFields_Cons:
  "Entry_WithFields entry (kv # flds) =
     Entry_WithFields
       (entry\<lparr>Data := (if is_func (snd kv) then Data entry
                         else AList.update (fst kv) (snd kv) (Data entry))\<rparr>) flds"
  by (simp add: Entry_WithFields_def)

lemma Entry_WithFields_Nil: "Entry_WithFields entry [] = entry"
  by (simp add: Entry_WithFields_def)

lemma Entry_WithFields_Time: "Time (Entry_WithFields entry flds) = Time entry"
  by (simp add: Entry_WithFields_def)

lemma Entry_WithFields_dom:
  "dom (map_of (Data entry)) \<subseteq> dom (map_of (Data (Entry_WithFields entry flds)))"
proof (induction flds arbitrary: entry)
  case Nil
  show ?case by (simp add: Entry_WithFields_Nil)
next
  case (Cons kv flds)
  let ?en = "entry\<lparr>Data := (if is_func (snd kv) then Data entry
                         else AList.update (fst kv) (snd kv) (Data entry))\<rparr>"
  have "dom (map_of (Data entry)) \<subseteq> dom (map_of (Data ?en))"
    by (auto simp: update_conv')
  with Cons[of ?en] show ?case
    unfolding Entry_WithFields_Cons by blast
qed

lemma Entry_WithFields_skipped:
  "\<forall>v. (k, v) \<in> set flds \<longrightarrow> is_func v \<Longrightarrow>
   map_of (Data (Entry_WithFields entry flds)) k = map_of (Data entry) k"
proof (induction flds arbitrary: entry)
  case Nil
  show ?case by (simp add: Entry_WithFields_Nil)
next
  case (Cons kv flds)
  let ?en = "entry\<lparr>Data := (if is_func (snd kv) then Data entry
                         else AList.update (fst kv) (snd kv) (Data entry))\<rparr>"
  have 1: "\<forall>v. (k, v) \<in> set flds \<longrightarrow> is_func v" using Cons.prems by simp
  have 2: "map_of (Data ?en) k = map_of (Data entry) k"
  proof (cases "is_func (snd kv)")
    case True
    then show ?thesis by simp
  next
    case False
    with Cons.prems have "fst kv \<noteq> k" by (cases kv) auto
    with False show ?thesis by (simp add: update_conv')
  qed
  from Cons.IH[OF 1, of ?en] 2 show ?case
    unfolding Entry_WithFields_Cons by simp
qed

lemma Entry_WithFields_stored:
  "distinct (map fst flds) \<Longrightarrow> (k, v) \<in> set flds \<Longrightarrow> \<not> is_func v \<Longrightarrow>
   map_of (Data (Entry_WithFields entry flds)) k = Some v"
proof (induction flds arbitrary: entry)
  case Nil
  then show ?case by simp
next
  case (Cons kv flds)
  let ?en = "entry\<lparr>Data := (if is_func (snd kv) then Data entry
                         else AList.update (fst kv) (snd kv) (Data entry))\<rparr>"
  show ?case
  proof (cases "kv = (k, v)")
    case True
    with Cons.prems have "\<forall>v'. (k, v') \<in> set flds \<longrightarrow> is_func v'"
      by (auto simp: image_iff)
    then have "map_of (Data (Entry_WithFields ?en flds)) k = map_of (Data ?en) k"
      by (rule Entry_WithFields_skipped)
    with True Cons.prems(3) show ?thesis
      unfolding Entry_WithFields_Cons by (simp add: update_conv')
  next
    case False
    with Cons.prems have "distinct (map fst flds)" "(k, v) \<in> set flds" by auto
    from Cons.IH[OF this Cons.prems(3), of ?en] show ?thesis
      unfolding Entry_WithFields_Cons .
  qed
qed

lemma hook_Fire_remote:
  "\<exists>calls. remote (snd (hook_Fire hk entry e st)) = remote st @ calls \<and>
           (\<forall>c\<in>set calls. forwarded (indexName st) (Time entry) (Data entry) c)"
  by (cases "(hk, entry, e, st)" rule: hook_Fire.cases)
     (auto simp: MeiliSearchHook_Fire_def ElasticSearchHook_Fire_def forwarded_def
       json_Marshal_def split: option.splits sum.splits if_splits)

lemma LevelHooks_Fire_remote:
  "\<exists>calls. remote (snd (LevelHooks_Fire hks entry e st)) = remote st @ calls \<and>
           (\<forall>c\<in>set calls. forwarded (indexName st) (Time entry) (Data entry) c)"
proof (induction hks arbitrary: st)
  case Nil
  show ?case by simp
next
  case (Cons hk hks)
  obtain r st1 where f: "hook_Fire hk entry e st = (r, st1)" by force
  obtain c1 where 1: "remote st1 = remote st @ c1"
      "\<forall>c\<in>set c1. forwarded (indexName st) (Time entry) (Data entry) c"
    using hook_Fire_remote[of hk entry e st] f by auto
  have ix: "indexName st1 = indexName st"
    using hook_Fire_io[of st hk entry e] f by (simp add: only_io_def)
  show ?case
  proof (cases r)
    case (Some err)
    with f 1 show ?thesis by simp
  next
    case None
    obtain c2 where 2: "remote (snd (LevelHooks_Fire hks entry e st1)) = remote st1 @ c2"
        "\<forall>c\<in>set c2. forwarded (indexName st1) (Time entry) (Data entry) c"
      using Cons[of st1] by blast
    have "remote (snd (LevelHooks_Fire (hk # hks) entry e st)) = remote st @ (c1 @ c2)"
      using None f 1 2 by simp
    moreover have "\<forall>c\<in>set (c1 @ c2). forwarded (indexName st) (Time entry) (Data entry) c"
      using 1 2 ix by auto
    ultimately show ?thesis by blast
  qed
qed

lemma Entry_fireHooks_remote:
  "\<exists>calls. remote (Entry_fireHooks entry e st) = remote st @ calls \<and>
           (\<forall>c\<in>set calls. forwarded (indexName st) (Time entry) (Data entry) c)"
proof -
  obtain r st1
    where f: "LevelHooks_Fire (Hooks (standardLogger st) (Lvl entry)) entry e st = (r, st1)"
    by force
  have "remote (Entry_fireHooks entry e st) = remote st1"
    using f by (cases r) (simp_all add: Entry_fireHooks_def)
  with LevelHooks_Fire_remote[of "Hooks (standardLogger st) (Lvl entry)" entry e st] f
  show ?thesis by simp
qed

lemma Entry_write_remote: "remote (Entry_write entry st) = remote st"
  by (auto simp: Entry_write_def Out_Write_def File_Write_def split: sink.splits option.splits)

lemma Entry_Log_remote:
  "\<exists>calls. remote (snd (Entry_Log entry level msg e st)) = remote st @ calls \<and>
     (\<forall>c\<in>set calls. forwarded (indexName st) (Time (complete_entry entry level msg e))
                        (Data entry) c)"
proof (cases "IsLevelEnabled level st")
  case True
  then have "remote (snd (Entry_Log entry level msg e st)) =
        remote (Entry_fireHooks (complete_entry entry level msg e) e st)"
    by (simp add: Entry_Log_def Entry_log_def Let_def Entry_write_remote)
  with Entry_fireHooks_remote[of "complete_entry entry level msg e" e st]
  show ?thesis by (simp add: complete_entry_Data)
next
  case False
  then show ?thesis by (simp add: Entry_Log_def)
qed

lemma Entry_emit_remote:
  "\<exists>calls. remote (snd (Entry_emit entry opn msg e st)) = remote st @ calls \<and>
     (\<forall>c\<in>set calls. forwarded (indexName st)
                        (Time (complete_entry entry (op_level opn) msg e)) (Data entry) c)"
proof -
  obtain r st1 where f: "Entry_Log entry (op_level opn) msg e st = (r, st1)" by force
  have w: "remote (snd (Entry_emit entry opn msg e st)) = remote st1"
    using f by (cases r) (simp_all add: Entry_emit_def)
  with Entry_Log_remote[of entry "op_level opn" msg e st] f show ?thesis by simp
qed

lemma rotateLog_remote:
  "remote (snd (rotateLog e st)) = remote st \<and> indexName (snd (rotateLog e st)) = indexName st"
  by (auto simp: rotateLog_def File_Close_def os_OpenFile_def Let_def Logger_SetOutput_def
      split: if_splits option.splits)

lemma rotation_tick_remote:
  "\<exists>calls. remote (rotation_tick e st) = remote st @ calls \<and>
     (\<forall>c\<in>set calls. forwarded (indexName st) (now e) [] c)"
proof -
  obtain r st1 where f: "rotateLog e st = (r, st1)" by force
  have 1: "remote st1 = remote st" "indexName st1 = indexName st"
    using rotateLog_remote[of e st] f by simp_all
  show ?thesis
  proof (cases r)
    case None
    with f 1 show ?thesis by (simp add: rotation_tick_def)
  next
    case (Some err)
    let ?msg = "''Error rotating log: '' @ error_text err"
    have t: "Time (complete_entry newEntry ErrorLevel ?msg e) = now e" "Data newEntry = []"
      by (simp_all add: complete_entry_def newEntry_def)
    have "rotation_tick e st = snd (Logger_Errorf ?msg e st1)"
      using Some f by (simp add: rotation_tick_def)
    moreover have "\<exists>calls. remote (snd (Logger_Errorf ?msg e st1)) = remote st1 @ calls \<and>
       (\<forall>c\<in>set calls. forwarded (indexName st1) (now e) [] c)"
      using Entry_Log_remote[of newEntry ErrorLevel ?msg e st1] t
      by (auto simp: Logger_Errorf_def)
    ultimately show ?thesis using 1 by simp
  qed
qed

lemma entryFromContext_Time: "Time (entryFromContext tr ctx st) = zero_time"
  by (simp add: entryFromContext_def Logger_WithFields_def Entry_WithFields_Time newEntry_def
      Let_def)

lemma emission_time:
  "Time en = zero_time \<Longrightarrow> Time (complete_entry en level msg e) = now e"
  by (simp add: complete_entry_def)


lemma EntryWithFields_Nil: "EntryWithFields tr ctx [] st = entryFromContext tr ctx st"
  by (simp add: EntryWithFields_def Entry_WithFields_Nil)

lemma EntryWithFields_Time: "Time (EntryWithFields tr ctx flds st) = zero_time"
  by (simp add: EntryWithFields_def Entry_WithFields_Time entryFromContext_Time)

lemma EntryWithFields_keys:
  "TraceIDKey \<in> dom (map_of (Data (EntryWithFields tr ctx flds st))) \<and>
   (version st \<noteq> [] \<longrightarrow> VersionKey \<in> dom (map_of (Data (EntryWithFields tr ctx flds st))))"
proof -
  have "TraceIDKey \<in> dom (map_of (Data (entryFromContext tr ctx st))) \<and>
        (version st \<noteq> [] \<longrightarrow> VersionKey \<in> dom (map_of (Data (entryFromContext tr ctx st))))"
    by (auto simp: entryFromContext_Data)
  with Entry_WithFields_dom[of "entryFromContext tr ctx st" flds] show ?thesis
    unfolding EntryWithFields_def by blast
qed

text \<open>
  C8, as the code has it. \<open>Fire\<close> of the Meilisearch hook submits the entry's field map
  and nothing else, and submits nothing when the map cannot be marshalled; \<open>Fire\<close> of the
  Elasticsearch hook submits the field map with the entry's time, in RFC 3339 form, as the
  document id. Every call made while one of the emission functions runs, or while an entry
  built by \<open>EntryWithFields\<close> is emitted, carries the field map of the built entry and the
  time of the emission, whatever the message is. That map holds \<open>trace_id\<close>, \<open>version\<close>
  when it is set, and each field of the caller whose value is not a function; a field
  whose value is a function is left out. The entry by which the rotation loop reports a
  failure is forwarded with an empty field map.
\<close>

theorem hooks_forward_fields:
  "(meiliClient st = Some cl \<and> \<not> list_ex (\<lambda>kv. json_unsupported (snd kv)) (Data entry) \<longrightarrow>
      remote (snd (MeiliSearchHook_Fire entry e st)) =
        remote st @ [MeiliIndexDocuments cl (indexName st) (Data entry)]) \<and>
   (meiliClient st = Some cl \<and> list_ex (\<lambda>kv. json_unsupported (snd kv)) (Data entry) \<longrightarrow>
      MeiliSearchHook_Fire entry e st = (Some EMarshal, st)) \<and>
   (esClient st = Some cl \<longrightarrow>
      remote (snd (ElasticSearchHook_Fire entry e st)) =
        remote st @ [ESIndexDocument cl (indexName st) (Format_RFC3339 (Time entry))
                       (Data entry)]) \<and>
   (remote (snd (emit tr opn ctx msg e st)) = remote st @ calls \<and> c \<in> set calls \<longrightarrow>
      forwarded (indexName st) (now e) (Data (entryFromContext tr ctx st)) c) \<and>
   (remote (snd (Entry_emit (EntryWithFields tr ctx flds st) opn msg e st)) =
      remote st @ calls \<and> c \<in> set calls \<longrightarrow>
      forwarded (indexName st) (now e) (Data (EntryWithFields tr ctx flds st)) c) \<and>
   (remote (rotation_tick e st) = remote st @ calls \<and> c \<in> set calls \<longrightarrow>
      forwarded (indexName st) (now e) [] c) \<and>
   EntryWithFields tr ctx [] st = entryFromContext tr ctx st \<and>
   TraceIDKey \<in> dom (map_of (Data (EntryWithFields tr ctx flds st))) \<and>
   (version st \<noteq> [] \<longrightarrow> VersionKey \<in> dom (map_of (Data (EntryWithFields tr ctx flds st)))) \<and>
   (distinct (map fst flds) \<and> (k, v) \<in> set flds \<and> \<not> is_func v \<longrightarrow>
      map_of (Data (EntryWithFields tr ctx flds st)) k = Some v) \<and>
   ((\<forall>v'. (k, v') \<in> set flds \<longrightarrow> is_func v') \<longrightarrow>
      map_of (Data (EntryWithFields tr ctx flds st)) k =
        map_of (Data (entryFromContext tr ctx st)) k)"
proof -
  let ?en = "EntryWithFields tr ctx flds st"
  have 1: "meiliClient st = Some cl \<and>
      \<not> list_ex (\<lambda>kv. json_unsupported (snd kv)) (Data entry) \<longrightarrow>
      remote (snd (MeiliSearchHook_Fire entry e st)) =
        remote st @ [MeiliIndexDocuments cl (indexName st) (Data entry)]"
    by (simp add: MeiliSearchHook_Fire_def json_Marshal_def)
  have 2: "meiliClient st = Some cl \<and>
      list_ex (\<lambda>kv. json_unsupported (snd kv)) (Data entry) \<longrightarrow>
      MeiliSearchHook_Fire entry e st = (Some EMarshal, st)"
    by (simp add: MeiliSearchHook_Fire_def json_Marshal_def)
  have 3: "esClient st = Some cl \<longrightarrow>
      remote (snd (ElasticSearchHook_Fire entry e st)) =
        remote st @ [ESIndexDocument cl (indexName st) (Format_RFC3339 (Time entry))
                       (Data entry)]"
    by (simp add: ElasticSearchHook_Fire_def)
  have em: "forwarded (indexName st) (now e) (Data en) c"
    if r: "remote (snd (Entry_emit en opn msg e st)) = remote st @ calls"
      and m: "c \<in> set calls" and z: "Time en = zero_time" for en
  proof -
    obtain calls' where n: "remote (snd (Entry_emit en opn msg e st)) = remote st @ calls'"
      "\<forall>c\<in>set calls'. forwarded (indexName st)
          (Time (complete_entry en (op_level opn) msg e)) (Data en) c"
      using Entry_emit_remote[of en opn msg e st] by blast
    from r n(1) have "calls' = calls" by simp
    with n(2) m show ?thesis by (simp add: emission_time[OF z])
  qed
  have 4: "remote (snd (emit tr opn ctx msg e st)) = remote st @ calls \<and> c \<in> set calls \<longrightarrow>
      forwarded (indexName st) (now e) (Data (entryFromContext tr ctx st)) c"
    using em[of "entryFromContext tr ctx st"] by (simp add: emit_def entryFromContext_Time)
  have 5: "remote (snd (Entry_emit ?en opn msg e st)) = remote st @ calls \<and> c \<in> set calls \<longrightarrow>
      forwarded (indexName st) (now e) (Data ?en) c"
    using em[of ?en] by (simp add: EntryWithFields_Time)
  have 6: "remote (rotation_tick e st) = remote st @ calls \<and> c \<in> set calls \<longrightarrow>
      forwarded (indexName st) (now e) [] c"
  proof (intro impI, elim conjE)
    assume r: "remote (rotation_tick e st) = remote st @ calls" and m: "c \<in> set calls"
    obtain calls' where n: "remote (rotation_tick e st) = remote st @ calls'"
      "\<forall>c\<in>set calls'. forwarded (indexName st) (now e) [] c"
      using rotation_tick_remote[of e st] by blast
    from r n(1) have "calls' = calls" by simp
    with n(2) m show "forwarded (indexName st) (now e) [] c" by blast
  qed
  have 7: "EntryWithFields tr ctx [] st = entryFromContext tr ctx st"
    by (rule EntryWithFields_Nil)
  note 8 = EntryWithFields_keys[of tr ctx flds st]
  have 9: "distinct (map fst flds) \<and> (k, v) \<in> set flds \<and> \<not> is_func v \<longrightarrow>
      map_of (Data ?en) k = Some v"
    using Entry_WithFields_stored[of flds k v "entryFromContext tr ctx st"]
    by (simp add: EntryWithFields_def)
  have 10: "(\<forall>v'. (k, v') \<in> set flds \<longrightarrow> is_func v') \<longrightarrow>
      map_of (Data ?en) k = map_of (Data (entryFromContext tr ctx st)) k"
    using Entry_WithFields_skipped[of k flds "entryFromContext tr ctx st"]
    by (simp add: EntryWithFields_def)
  from 1 2 3 4 5 6 7 8 9 10 show ?thesis by blast
qed

lemma rfc1: "Format_RFC3339 day1 = ''2024-03-09T07:05:00Z''"
  by code_simp

lemma rfc2: "Format_RFC3339 day2 = ''2024-03-10T07:05:00Z''"
  by code_simp

lemma hooked_emit:
  "remote (snd (Entry_emit (EntryWithFields tracer0 ''t1'' user_fields hooked) OpInfo ''hello''
      (env_ok day1) hooked)) =
   [MeiliIndexDocuments 1 ''logs'' user_data,
    ESIndexDocument 2 ''logs'' ''2024-03-09T07:05:00Z'' user_data]"
  by (simp add: hooked_def with_clients_def user_fields_def user_data_def eval_defs
      EntryWithFields_def start_state_def new_logger_def tracer0_def env_ok_def zerobase_def
      zero_time_def rfc1)

lemma user_entry_Data: "Data (EntryWithFields tracer0 ''t1'' user_fields hooked) = user_data"
  by (simp add: hooked_def with_clients_def user_fields_def user_data_def eval_defs
      EntryWithFields_def start_state_def tracer0_def)

lemma rotation_error_forwarded:
  "remote after_init_meili = [] \<and>
   remote (rotation_tick env_open_fails after_init_meili) = [MeiliIndexDocuments 1 ''logs'' []]"
  by (simp add: after_init_meili_def config_file_meili_def meili_config_def config_file_def
      no_elastic_def env_open_fails_def eval_defs start_state_def new_logger_def env_ok_def
      zerobase_def logrus_Level_def path1)


theorem hooks_forward_fields_witness:
  "meiliClient hooked = Some 1 \<and> esClient hooked = Some 2 \<and>
   \<not> list_ex (\<lambda>kv. json_unsupported (snd kv)) (Data hello_entry) \<and>
   remote (snd (MeiliSearchHook_Fire hello_entry (env_ok day1) hooked)) =
     remote hooked @ [MeiliIndexDocuments 1 ''logs'' (Data hello_entry)] \<and>
   list_ex (\<lambda>kv. json_unsupported (snd kv)) (Data chan_entry) \<and>
   MeiliSearchHook_Fire chan_entry (env_ok day1) hooked = (Some EMarshal, hooked) \<and>
   remote (snd (ElasticSearchHook_Fire hello_entry (env_ok day1) hooked)) =
     remote hooked @ [ESIndexDocument 2 ''logs'' ''2024-03-09T07:05:00Z'' (Data hello_entry)] \<and>
   remote (snd (Entry_emit (EntryWithFields tracer0 ''t1'' user_fields hooked) OpInfo ''hello''
      (env_ok day1) hooked)) =
     remote hooked @ [MeiliIndexDocuments 1 ''logs'' user_data,
                      ESIndexDocument 2 ''logs'' ''2024-03-09T07:05:00Z'' user_data] \<and>
   forwarded ''logs'' day1 user_data
     (ESIndexDocument 2 ''logs'' ''2024-03-09T07:05:00Z'' user_data) \<and>
   distinct (map fst user_fields) \<and> (''user'', Str ''u7'') \<in> set user_fields \<and>
   map_of (Data (EntryWithFields tracer0 ''t1'' user_fields hooked)) ''user'' =
     Some (Str ''u7'') \<and>
   filter (\<lambda>kv. fst kv = ''callback'') user_fields = [(''callback'', Func 0)] \<and>
   is_func (Func 0) \<and>
   map_of (Data (EntryWithFields tracer0 ''t1'' user_fields hooked)) ''callback'' = None \<and>
   TraceIDKey \<in> dom (map_of (Data (EntryWithFields tracer0 ''t1'' user_fields hooked))) \<and>
   remote (rotation_tick env_open_fails after_init_meili) =
     remote after_init_meili @ [MeiliIndexDocuments 1 ''logs'' []] \<and>
   forwarded ''logs'' day2 [] (MeiliIndexDocuments 1 ''logs'' [])"
proof -
  let ?en = "EntryWithFields tracer0 ''t1'' user_fields hooked"
  let ?c = "ESIndexDocument 2 ''logs'' ''2024-03-09T07:05:00Z'' user_data"
  let ?calls = "[MeiliIndexDocuments 1 ''logs'' user_data, ?c]"
  let ?r = "MeiliIndexDocuments 1 ''logs'' []"
  have h: "meiliClient hooked = Some 1" "esClient hooked = Some 2" "indexName hooked = ''logs''"
    "remote hooked = []" "version hooked = []"
    by (simp_all add: hooked_def with_clients_def start_state_def AddMeiliSearchHook_def
        AddElasticSearchHook_def Logger_AddHook_def Let_def)
  have m: "indexName after_init_meili = ''logs''"
    by (simp add: after_init_meili_def config_file_meili_def meili_config_def config_file_def
      no_elastic_def eval_defs start_state_def new_logger_def env_ok_def zerobase_def
      logrus_Level_def path1)
  have j: "\<not> list_ex (\<lambda>kv. json_unsupported (snd kv)) (Data hello_entry)"
    "list_ex (\<lambda>kv. json_unsupported (snd kv)) (Data chan_entry)"
    by (simp_all add: hello_entry_def chan_entry_def)
  have tm: "Format_RFC3339 (Time hello_entry) = ''2024-03-09T07:05:00Z''"
    "now (env_ok day1) = day1" "now env_open_fails = day2"
    by (simp_all add: hello_entry_def rfc1 env_ok_def env_open_fails_def)
  have r: "remote (snd (Entry_emit ?en OpInfo ''hello'' (env_ok day1) hooked)) =
      remote hooked @ ?calls"
    using h(4) by (simp add: hooked_emit)
  have rt: "remote (rotation_tick env_open_fails after_init_meili) =
      remote after_init_meili @ [?r]"
    using rotation_error_forwarded by simp
  have u: "distinct (map fst user_fields)" "(''user'', Str ''u7'') \<in> set user_fields"
    "\<not> is_func (Str ''u7'')" "\<forall>v'. (''callback'', v') \<in> set user_fields \<longrightarrow> is_func v'"
    by (simp_all add: user_fields_def)
  have e0: "map_of (Data (entryFromContext tracer0 ''t1'' hooked)) ''callback'' = None"
    using h(5) by (simp add: entryFromContext_Data TraceIDKey_def)
  note t1 = hooks_forward_fields[of hooked 1 hello_entry "env_ok day1" tracer0 OpInfo "''t1''"
      "''hello''" ?calls ?c user_fields "''user''" "Str ''u7''"]
  note t1' = hooks_forward_fields[of hooked 1 chan_entry "env_ok day1" tracer0 OpInfo "''t1''"
      "''hello''" ?calls ?c user_fields "''callback''" "Str ''u7''"]
  note t2 = hooks_forward_fields[of hooked 2 hello_entry "env_ok day1" tracer0 OpInfo "''t1''"
      "''hello''" ?calls ?c user_fields "''user''" "Str ''u7''"]
  note t3 = hooks_forward_fields[of after_init_meili 1 hello_entry env_open_fails tracer0
      OpInfo "''t1''" "''hello''" "[?r]" ?r user_fields "''user''" "Str ''u7''"]
  from t1 h(1) j(1) have a: "remote (snd (MeiliSearchHook_Fire hello_entry (env_ok day1) hooked)) =
     remote hooked @ [MeiliIndexDocuments 1 (indexName hooked) (Data hello_entry)]"
    by blast
  from t1' h(1) j(2) have a': "MeiliSearchHook_Fire chan_entry (env_ok day1) hooked =
     (Some EMarshal, hooked)"
    by blast
  from t2 h(2) have b: "remote (snd (ElasticSearchHook_Fire hello_entry (env_ok day1) hooked)) =
     remote hooked @ [ESIndexDocument 2 (indexName hooked) (Format_RFC3339 (Time hello_entry))
        (Data hello_entry)]"
    by blast
  from t1 r have c: "forwarded (indexName hooked) (now (env_ok day1)) (Data ?en) ?c"
    by simp
  from t1 u have d: "map_of (Data ?en) ''user'' = Some (Str ''u7'')"
    "TraceIDKey \<in> dom (map_of (Data ?en))"
    by blast+
  from t1' u(4) e0 have f: "map_of (Data ?en) ''callback'' = None"
    by simp
  from t3 rt have g: "forwarded (indexName after_init_meili) (now env_open_fails) [] ?r"
    by simp
  have k: "filter (\<lambda>kv. fst kv = ''callback'') user_fields = [(''callback'', Func 0)]"
    by (simp add: user_fields_def)
  from a a' b c d f g h j r rt tm u(1,2) m k show ?thesis
    by (simp add: user_entry_Data)
qed

text \<open>
  C8 as stated fails. For an entry with message \<open>hello\<close> neither hook forwards the
  message, and the document sent to Meilisearch does not hold the time: both receive the
  field map, whose only keys are \<open>trace_id\<close> and \<open>version\<close>. The entry that reports a
  failed rotation reaches Meilisearch with no field at all, and a field of the caller whose
  value is a function is not in the map that is forwarded.
\<close>

theorem hooks_omit_message_and_time:
  "Message hello_entry = ''hello'' \<and>
   Format_RFC3339 (Time hello_entry) = ''2024-03-09T07:05:00Z'' \<and>
   remote (snd (MeiliSearchHook_Fire hello_entry (env_ok day1) with_clients)) =
     [MeiliIndexDocuments 1 ''logs'' (Data hello_entry)] \<and>
   remote (snd (ElasticSearchHook_Fire hello_entry (env_ok day1) with_clients)) =
     [ESIndexDocument 2 ''logs'' ''2024-03-09T07:05:00Z'' (Data hello_entry)] \<and>
   map fst (Data hello_entry) = [TraceIDKey, VersionKey] \<and>
   Str ''hello'' \<notin> snd ` set (Data hello_entry) \<and>
   Str ''2024-03-09T07:05:00Z'' \<notin> snd ` set (Data hello_entry) \<and>
   remote after_init_meili = [] \<and>
   remote (rotation_tick env_open_fails after_init_meili) =
     [MeiliIndexDocuments 1 ''logs'' []] \<and>
   map_of user_fields ''callback'' = Some (Func 0) \<and>
   map_of (Data (EntryWithFields tracer0 ''t1'' user_fields hooked)) ''callback'' = None"
proof -
  have 1: "Message hello_entry = ''hello''" by (simp add: hello_entry_def)
  have 2: "Format_RFC3339 (Time hello_entry) = ''2024-03-09T07:05:00Z''"
    by (simp add: hello_entry_def rfc1)
  have 3: "remote (snd (MeiliSearchHook_Fire hello_entry (env_ok day1) with_clients)) =
     [MeiliIndexDocuments 1 ''logs'' (Data hello_entry)]"
    by (simp add: MeiliSearchHook_Fire_def json_Marshal_def with_clients_def start_state_def
        env_ok_def hello_entry_def)
  have 4: "remote (snd (ElasticSearchHook_Fire hello_entry (env_ok day1) with_clients)) =
     [ESIndexDocument 2 ''logs'' ''2024-03-09T07:05:00Z'' (Data hello_entry)]"
    by (simp add: ElasticSearchHook_Fire_def with_clients_def start_state_def env_ok_def 2)
  have 5: "map fst (Data hello_entry) = [TraceIDKey, VersionKey]"
    "Str ''hello'' \<notin> snd ` set (Data hello_entry)"
    "Str ''2024-03-09T07:05:00Z'' \<notin> snd ` set (Data hello_entry)"
    by (simp_all add: hello_entry_def)
  have 6: "map_of user_fields ''callback'' = Some (Func 0)"
    "map_of (Data (EntryWithFields tracer0 ''t1'' user_fields hooked)) ''callback'' = None"
    by (simp_all add: user_entry_Data) (simp_all add: user_fields_def user_data_def TraceIDKey_def)
  from 1 2 3 4 5 6 rotation_error_forwarded show ?thesis by blast
qed

end
